theory Spec2Isabelle
  imports Main
begin

section \<open>Python strings\<close>

text \<open>
  A Python \<open>str\<close> is modelled as a \<open>string\<close>: a list of characters, each standing for the
  code point of the same number (the range 0 to 255). \<open>len\<close> is \<open>length\<close>, slicing
  \<open>s[:n]\<close> is \<open>take n s\<close>, \<open>+\<close> is \<open>@\<close>.
\<close>

text \<open>
  The characters below 256 for which \<open>str.isspace\<close> holds: tab, line feed, vertical tab,
  form feed, carriage return, the four separators 0x1C to 0x1F, space, NEL and the
  no-break space. \<open>str.strip()\<close> and the regular expression escape \<open>\s\<close> use the same set.
\<close>

definition whitespace_chars :: "char list" where
  "whitespace_chars =
     [CHR 0x09, CHR 0x0A, CHR 0x0B, CHR 0x0C, CHR 0x0D, CHR 0x1C, CHR 0x1D, CHR 0x1E,
      CHR 0x1F, CHR 0x20, CHR 0x85, CHR 0xA0]"

definition isspace :: "char \<Rightarrow> bool" where
  "isspace c = (c \<in> set whitespace_chars)"

definition strip :: "string \<Rightarrow> string" where
  "strip s = rev (dropWhile isspace (rev (dropWhile isspace s)))"

fun startswith :: "string \<Rightarrow> string \<Rightarrow> bool" where
  "startswith s [] = True"
| "startswith [] (p # ps) = False"
| "startswith (c # cs) (p # ps) = (c = p \<and> startswith cs ps)"

text \<open>\<open>str_in p s\<close> is Python's \<open>p in s\<close> on strings: \<open>p\<close> occurs in \<open>s\<close> as a substring.\<close>

fun str_in :: "string \<Rightarrow> string \<Rightarrow> bool" where
  "str_in p [] = (p = [])"
| "str_in p (c # cs) = (startswith (c # cs) p \<or> str_in p cs)"

text \<open>\<open>sep.join(xs)\<close>.\<close>

fun join :: "string \<Rightarrow> string list \<Rightarrow> string" where
  "join sep [] = []"
| "join sep [x] = x"
| "join sep (x # y # ys) = x @ sep @ join sep (y # ys)"

section \<open>Regular expressions as \<open>re\<close> runs them\<close>

text \<open>
  The fragment of the \<open>re\<close> syntax that the program's two patterns use. A character class
  is a list of items, taken positively (\<open>[...]\<close>) or negated (\<open>[^...]\<close>, and \<open>\S\<close> as
  \<open>[^\s]\<close>).
\<close>

datatype citem = Ch char | Rng char char | WS

datatype cclass = OneOf "citem list" | NoneOf "citem list"

fun citem_has :: "citem \<Rightarrow> char \<Rightarrow> bool" where
  "citem_has (Ch a) c = (c = a)"
| "citem_has (Rng a b) c = ((of_char a :: nat) \<le> of_char c \<and> (of_char c :: nat) \<le> of_char b)"
| "citem_has WS c = isspace c"

fun in_class :: "cclass \<Rightarrow> char \<Rightarrow> bool" where
  "in_class (OneOf items) c = list_ex (\<lambda>i. citem_has i c) items"
| "in_class (NoneOf items) c = (\<not> list_ex (\<lambda>i. citem_has i c) items)"

datatype regex =
    RLit string
  | RCls cclass
  | RSeq regex regex
  | RAlt regex regex
  | ROpt regex
  | RPlus cclass
  | RStarLazy cclass
  | RRep nat cclass
  | RGroup regex

text \<open>
  \<open>re\<close> is a backtracking matcher: alternatives are tried left to right, a greedy
  repetition tries the longest run first and a lazy one the shortest first, and the first
  complete match wins. \<open>rmatch r (s, g)\<close> lists, in that order of preference, every way
  \<open>r\<close> can match at the start of \<open>s\<close>: the input left over and the text of group 1
  (\<open>g\<close> before the match). The head of the list is the match that \<open>re\<close> reports.
\<close>

fun plus_greedy :: "cclass \<Rightarrow> string \<Rightarrow> string list" where
  "plus_greedy c [] = []"
| "plus_greedy c (x # xs) = (if in_class c x then plus_greedy c xs @ [xs] else [])"

fun star_lazy :: "cclass \<Rightarrow> string \<Rightarrow> string list" where
  "star_lazy c [] = [[]]"
| "star_lazy c (x # xs) = (x # xs) # (if in_class c x then star_lazy c xs else [])"

fun rep_class :: "nat \<Rightarrow> cclass \<Rightarrow> string \<Rightarrow> string option" where
  "rep_class 0 c s = Some s"
| "rep_class (Suc n) c [] = None"
| "rep_class (Suc n) c (x # xs) = (if in_class c x then rep_class n c xs else None)"

type_synonym mstate = "string \<times> string option"

fun rmatch :: "regex \<Rightarrow> mstate \<Rightarrow> mstate list" where
  "rmatch (RLit l) (s, g) = (if startswith s l then [(drop (length l) s, g)] else [])"
| "rmatch (RCls c) (s, g) =
     (case s of [] \<Rightarrow> [] | x # xs \<Rightarrow> if in_class c x then [(xs, g)] else [])"
| "rmatch (RSeq a b) st = concat (map (rmatch b) (rmatch a st))"
| "rmatch (RAlt a b) st = rmatch a st @ rmatch b st"
| "rmatch (ROpt a) st = rmatch a st @ [st]"
| "rmatch (RPlus c) (s, g) = map (\<lambda>r. (r, g)) (plus_greedy c s)"
| "rmatch (RStarLazy c) (s, g) = map (\<lambda>r. (r, g)) (star_lazy c s)"
| "rmatch (RRep n c) (s, g) = (case rep_class n c s of None \<Rightarrow> [] | Some r \<Rightarrow> [(r, g)])"
| "rmatch (RGroup a) (s, g) =
     map (\<lambda>(r, _). (r, Some (take (length s - length r) s))) (rmatch a (s, g))"

text \<open>
  \<open>re.search\<close>: the leftmost position at which the pattern matches, and there the
  preferred match. The result is the state after the match, \<open>None\<close> for no match.
\<close>

fun re_search :: "regex \<Rightarrow> string \<Rightarrow> mstate option" where
  "re_search r [] = (case rmatch r ([], None) of [] \<Rightarrow> None | m # _ \<Rightarrow> Some m)"
| "re_search r (x # xs) =
     (case rmatch r (x # xs, None) of [] \<Rightarrow> re_search r xs | m # _ \<Rightarrow> Some m)"

text \<open>
  \<open>re.sub(pattern, repl, s)\<close> for a constant replacement: the matches are found left to
  right without overlap and each is replaced; an empty match is replaced and the scan moves
  on by one character.
\<close>

function re_sub :: "regex \<Rightarrow> string \<Rightarrow> string \<Rightarrow> string" where
  "re_sub r repl s =
     (case rmatch r (s, None) of
        [] \<Rightarrow> (case s of [] \<Rightarrow> [] | x # xs \<Rightarrow> x # re_sub r repl xs)
      | (s', _) # _ \<Rightarrow>
          if length s' < length s then repl @ re_sub r repl s'
          else repl @ (case s of [] \<Rightarrow> [] | x # xs \<Rightarrow> x # re_sub r repl xs))"
  by pat_completeness auto
termination
  by (relation "measure (\<lambda>(r, repl, s). length s)") auto

section \<open>The URL parser\<close>

text \<open>
  The pattern of \<open>get_youtube_video_id\<close>:
  \<^verbatim>\<open>(?:youtube\.com\/(?:[^\/\n\s]+\/\S+\/|(?:v|e(?:mbed)?)\/|\S*?[?&]v=)|youtu\.be\/)([a-zA-Z0-9_-]{11})\<close>
\<close>

definition id_class :: cclass where
  "id_class = OneOf [Rng CHR ''a'' CHR ''z'', Rng CHR ''A'' CHR ''Z'', Rng CHR ''0'' CHR ''9'',
                     Ch CHR ''_'', Ch CHR ''-'']"

definition youtube_prefix :: regex where
  "youtube_prefix =
     RAlt
       (RSeq (RLit ''youtube.com/'')
          (RAlt
             (RSeq (RPlus (NoneOf [Ch CHR ''/'', Ch CHR 0x0A, WS]))
                (RSeq (RLit ''/'') (RSeq (RPlus (NoneOf [WS])) (RLit ''/''))))
             (RAlt
                (RSeq (RAlt (RLit ''v'') (RSeq (RLit ''e'') (ROpt (RLit ''mbed'')))) (RLit ''/''))
                (RSeq (RStarLazy (NoneOf [WS]))
                   (RSeq (RCls (OneOf [Ch CHR ''?'', Ch CHR ''&''])) (RLit ''v=''))))))
       (RLit ''youtu.be/'')"

definition youtube_regex :: regex where
  "youtube_regex = RSeq youtube_prefix (RGroup (RRep 11 id_class))"

text \<open>\<open>None\<close> is Python's \<open>None\<close>; \<open>match.group(1)\<close> is the text of group 1.\<close>

definition get_youtube_video_id :: "string \<Rightarrow> string option" where
  "get_youtube_video_id url =
     (case re_search youtube_regex url of None \<Rightarrow> None | Some (_, g) \<Rightarrow> g)"

text \<open>
  For stating what the parser finds: the texts that a pattern denotes, in the usual
  reading of the syntax, and the URLs that contain an ID pattern, that is a piece denoted
  by the parser's pattern.
\<close>

fun lang :: "regex \<Rightarrow> string set" where
  "lang (RLit l) = {l}"
| "lang (RCls c) = {[x] | x. in_class c x}"
| "lang (RSeq a b) = {u @ v | u v. u \<in> lang a \<and> v \<in> lang b}"
| "lang (RAlt a b) = lang a \<union> lang b"
| "lang (ROpt a) = insert [] (lang a)"
| "lang (RPlus c) = {w. w \<noteq> [] \<and> list_all (in_class c) w}"
| "lang (RStarLazy c) = {w. list_all (in_class c) w}"
| "lang (RRep n c) = {w. length w = n \<and> list_all (in_class c) w}"
| "lang (RGroup a) = lang a"

definition has_id_pattern :: "string \<Rightarrow> bool" where
  "has_id_pattern url = (\<exists>pre m suf. url = pre @ m @ suf \<and> m \<in> lang youtube_regex)"

section \<open>The transcript fetcher\<close>

text \<open>
  The transcript service is outside the program. What a call into it can do is a value:
  it returns, or it raises an exception. \<open>OtherException\<close> carries \<open>str(e)\<close> of any
  exception that is neither of the two the program names.
\<close>

datatype exn = TranscriptsDisabled | NoTranscriptFound | OtherException string

text \<open>A transcript is what its \<open>fetch()\<close> does: raise, or yield the segments' texts in order.\<close>

type_synonym transcript = "exn + string list"

record transcript_list =
  find_manually_created_transcript :: "string list \<Rightarrow> exn + transcript"
  find_generated_transcript :: "string list \<Rightarrow> exn + transcript"

definition target_language_codes :: "string list" where
  "target_language_codes = [''en'']"

text \<open>The body of the outer \<open>try\<close> of \<open>fetch_youtube_transcript\<close>: \<open>Inl\<close> is an exception leaving it.\<close>

definition fetch_youtube_transcript_try ::
  "(string \<Rightarrow> exn + transcript_list) \<Rightarrow> string \<Rightarrow> exn + string" where
  "fetch_youtube_transcript_try list_transcripts video_id =
     (case list_transcripts video_id of
        Inl e \<Rightarrow> Inl e
      | Inr transcripts \<Rightarrow>
          (case (case find_manually_created_transcript transcripts target_language_codes of
                   Inl NoTranscriptFound \<Rightarrow> find_generated_transcript transcripts target_language_codes
                 | Inl e \<Rightarrow> Inl e
                 | Inr t \<Rightarrow> Inr t) of
             Inl e \<Rightarrow> Inl e
           | Inr (Inl e) \<Rightarrow> Inl e
           | Inr (Inr items) \<Rightarrow> Inr (join '' '' items)))"

definition fetch_youtube_transcript ::
  "(string \<Rightarrow> exn + transcript_list) \<Rightarrow> string \<Rightarrow> string" where
  "fetch_youtube_transcript list_transcripts video_id =
     (case fetch_youtube_transcript_try list_transcripts video_id of
        Inr full_transcript \<Rightarrow> full_transcript
      | Inl TranscriptsDisabled \<Rightarrow> ''Transcripts are disabled for this video.''
      | Inl NoTranscriptFound \<Rightarrow>
          ''No transcript found for this video. It might be a music video, very short, or processing.''
      | Inl (OtherException msg) \<Rightarrow> ''Could not retrieve transcript: '' @ msg)"

section \<open>The web text extractor\<close>

text \<open>
  The parsed document (the soup) is a forest of text nodes, comments and elements; a
  \<open>Comment\<close> stands for any string of the document that is not plain text.
  \<open>fetched\<close> is the outcome of the request and of the parse: a \<open>RequestException\<close> (from
  \<open>requests.get\<close> or \<open>raise_for_status\<close>), any other exception, each with its \<open>str(e)\<close>, or
  the soup.
\<close>

datatype node = Text string | Comment string | Element string "node list"

datatype fetched = RequestFailed string | ParseFailed string | Parsed "node list"

text \<open>\<open>for t in soup(names): t.decompose()\<close>: every element with one of the names goes, with its subtree.\<close>

fun decompose_all :: "string list \<Rightarrow> node list \<Rightarrow> node list" where
  "decompose_all names [] = []"
| "decompose_all names (Text t # ns) = Text t # decompose_all names ns"
| "decompose_all names (Comment t # ns) = Comment t # decompose_all names ns"
| "decompose_all names (Element tag kids # ns) =
     (if tag \<in> set names then decompose_all names ns
      else Element tag (decompose_all names kids) # decompose_all names ns)"

text \<open>The strings of the soup in document order; \<open>get_text\<close> leaves comments out.\<close>

fun all_strings :: "node list \<Rightarrow> string list" where
  "all_strings [] = []"
| "all_strings (Text t # ns) = t # all_strings ns"
| "all_strings (Comment t # ns) = all_strings ns"
| "all_strings (Element tag kids # ns) = all_strings kids @ all_strings ns"

text \<open>\<open>soup.get_text(separator=sep, strip=True)\<close>: each string stripped, the empty ones dropped.\<close>

definition get_text_strip :: "string \<Rightarrow> node list \<Rightarrow> string" where
  "get_text_strip sep soup = join sep (filter (\<lambda>s. s \<noteq> []) (map strip (all_strings soup)))"

text \<open>The pattern \<^verbatim>\<open>\s\s+\<close>.\<close>

definition ws_run :: regex where
  "ws_run = RSeq (RCls (OneOf [WS])) (RPlus (OneOf [WS]))"

definition fetch_website_text :: "(string \<Rightarrow> fetched) \<Rightarrow> string \<Rightarrow> string" where
  "fetch_website_text http url =
     (case http url of
        RequestFailed msg \<Rightarrow> ''Error fetching website content: '' @ msg
      | ParseFailed msg \<Rightarrow> ''Error parsing website content: '' @ msg
      | Parsed soup \<Rightarrow>
          re_sub ws_run '' '' (get_text_strip '' '' (decompose_all [''script'', ''style''] soup)))"

text \<open>
  Two notions for stating what the extractor returns: a text has two whitespace characters
  side by side; the names of all the elements of a soup.
\<close>

fun adjacent_ws :: "string \<Rightarrow> bool" where
  "adjacent_ws (a # b # cs) = (isspace a \<and> isspace b \<or> adjacent_ws (b # cs))"
| "adjacent_ws cs = False"

fun tag_names :: "node list \<Rightarrow> string list" where
  "tag_names [] = []"
| "tag_names (Text t # ns) = tag_names ns"
| "tag_names (Comment t # ns) = tag_names ns"
| "tag_names (Element tag kids # ns) = tag # tag_names kids @ tag_names ns"

section \<open>The dispatcher: the three actions of the page\<close>

text \<open>
  What an action does is the list of its effects in order: the banners and results it
  shows, and its calls to the media service, to \<open>time.sleep\<close>, to the agent and to the file
  system. \<open>AgentRun p vs\<close> is \<open>summarizer_agent.run(p, videos=vs)\<close>, with \<open>[]\<close> for a call
  without videos. The spinner and the video player are displays only and are not recorded.
  The states of an uploaded file are those of the media service; \<open>ACTIVE\<close> is the state of
  a file that is ready.
\<close>

datatype file_state = STATE_UNSPECIFIED | PROCESSING | ACTIVE | FAILED

fun state_name :: "file_state \<Rightarrow> string" where
  "state_name STATE_UNSPECIFIED = ''STATE_UNSPECIFIED''"
| "state_name PROCESSING = ''PROCESSING''"
| "state_name ACTIVE = ''ACTIVE''"
| "state_name FAILED = ''FAILED''"

text \<open>
  The handle of an uploaded file. Its \<open>error\<close> is a status message of the media service,
  with a \<open>message\<close> text that is empty when the service gave none. In a condition
  (\<open>if processed_video.error\<close>) such an object counts as true whatever its fields are: it
  defines neither \<open>__bool__\<close> nor \<open>__len__\<close>.
\<close>

record rpc_status =
  message :: string

definition truthy_status :: "rpc_status \<Rightarrow> bool" where
  "truthy_status s = True"

record remote_file =
  name :: string
  state :: file_state
  error :: rpc_status

datatype event =
    StWarning string
  | StError string
  | StSubheader string
  | StMarkdown string
  | StStop
  | UploadFile string
  | Sleep nat
  | GetFile string
  | AgentRun string "remote_file list"
  | Unlink string

text \<open>
  The services outside the program. A call returns (\<open>Inr\<close>) or raises an exception
  (\<open>Inl\<close>, with \<open>str(e)\<close>). \<open>get_file k n\<close> is the answer to the \<open>k\<close>-th re-fetch of the
  handle named \<open>n\<close>, counted from 0 within one action.
\<close>

record env =
  upload_file :: "string \<Rightarrow> string + remote_file"
  get_file :: "nat \<Rightarrow> string \<Rightarrow> string + remote_file"
  agent_run :: "string \<Rightarrow> remote_file list \<Rightarrow> string + string"
  list_transcripts :: "string \<Rightarrow> exn + transcript_list"
  http :: "string \<Rightarrow> fetched"

definition indent :: "nat \<Rightarrow> string" where
  "indent n = replicate n CHR '' ''"

subsection \<open>Video file\<close>

definition video_prompt :: "string \<Rightarrow> string" where
  "video_prompt user_query =
     ''\<newline>'' @ indent 28 @ ''Analyze the uploaded video for content and context.\<newline>''
     @ indent 28 @ ''Respond to the following query: '' @ user_query @ ''\<newline>''
     @ ''\<newline>''
     @ indent 28 @ ''Provide a detailed, user-friendly, and actionable response.\<newline>''
     @ indent 28"

text \<open>
  The polling loop. It has no bound, so it is a partial function: \<open>None\<close> is the loop that
  never ends. \<open>k\<close> counts the re-fetches done, \<open>tr\<close> is the trace so far; the result is the
  trace and either the exception of a re-fetch or the first handle that is not
  \<open>PROCESSING\<close>.
\<close>

partial_function (option) poll ::
  "(nat \<Rightarrow> string \<Rightarrow> string + remote_file) \<Rightarrow> nat \<Rightarrow> event list \<Rightarrow> remote_file
     \<Rightarrow> (event list \<times> (string + remote_file)) option" where
  "poll fetch k tr processed_video =
     (if state_name (state processed_video) = ''PROCESSING'' then
        (case fetch k (name processed_video) of
           Inl e \<Rightarrow> Some (tr @ [Sleep 2, GetFile (name processed_video)], Inl e)
         | Inr refetched \<Rightarrow>
             poll fetch (Suc k) (tr @ [Sleep 2, GetFile (name processed_video)]) refetched)
      else Some (tr, Inr processed_video))"

declare poll.simps [code]

text \<open>
  How the \<open>try\<close> block ends: normally, by an exception that \<open>except Exception\<close> catches, or
  by \<open>st.stop()\<close>, whose exception is not an \<open>Exception\<close> and passes the handler (the
  \<open>finally\<close> block still runs).
\<close>

datatype ending = Done | Raised string | Stopped

definition video_try :: "env \<Rightarrow> string \<Rightarrow> string \<Rightarrow> (event list \<times> ending) option" where
  "video_try e user_query video_path =
     (case upload_file e video_path of
        Inl err \<Rightarrow> Some ([UploadFile video_path], Raised err)
      | Inr uploaded \<Rightarrow>
          (case poll (get_file e) 0 [UploadFile video_path] uploaded of
             None \<Rightarrow> None
           | Some (tr, Inl err) \<Rightarrow> Some (tr, Raised err)
           | Some (tr, Inr processed_video) \<Rightarrow>
               if state_name (state processed_video) = ''FAILED'' then
                 Some (tr @ [StError (''Video processing failed. Error: '' @
                                (if truthy_status (error processed_video)
                                 then message (error processed_video)
                                 else ''Unknown error'')),
                             StStop], Stopped)
               else
                 (case agent_run e (video_prompt user_query) [processed_video] of
                    Inl err \<Rightarrow>
                      Some (tr @ [AgentRun (video_prompt user_query) [processed_video]],
                            Raised err)
                  | Inr content \<Rightarrow>
                      Some (tr @ [AgentRun (video_prompt user_query) [processed_video],
                                  StSubheader ''Video File Analysis Result'',
                                  StMarkdown content], Done))))"

text \<open>
  The handler of the button, on the file system \<open>fs\<close> (the set of the paths that exist):
  the trace and the file system afterwards, \<open>None\<close> when the polling never ends.
\<close>

definition analyze_video_button ::
  "env \<Rightarrow> string \<Rightarrow> string \<Rightarrow> string set \<Rightarrow> (event list \<times> string set) option" where
  "analyze_video_button e user_query video_path fs =
     (if strip user_query = [] then
        Some ([StWarning ''Please enter a question or ensure a predefined prompt is selected.''],
              fs)
      else
        (case video_try e user_query video_path of
           None \<Rightarrow> None
         | Some (tr, ending) \<Rightarrow>
             let tr' = (case ending of
                          Raised err \<Rightarrow>
                            tr @ [StError (''An error occurred during video file analysis: '' @ err)]
                        | _ \<Rightarrow> tr)
             in if video_path \<in> fs then Some (tr' @ [Unlink video_path], fs - {video_path})
                else Some (tr', fs)))"

text \<open>
  The whole action on an uploaded video: the upload is written to a new temporary file
  \<open>video_path\<close> (\<open>delete=False\<close>), then the button's handler runs.
\<close>

definition video_file_action ::
  "env \<Rightarrow> string \<Rightarrow> string \<Rightarrow> string set \<Rightarrow> (event list \<times> string set) option" where
  "video_file_action e user_query video_path fs =
     analyze_video_button e user_query video_path (insert video_path fs)"

subsection \<open>YouTube URL\<close>

definition youtube_prompt :: "string \<Rightarrow> string \<Rightarrow> string" where
  "youtube_prompt user_query transcript =
     ''\<newline>'' @ indent 32 @ ''You are provided with a transcript from a YouTube video.\<newline>''
     @ indent 32 @ ''Based on this transcript, respond to the following query: '' @ user_query
     @ ''\<newline>''
     @ ''\<newline>''
     @ indent 32 @ ''Transcript:\<newline>''
     @ indent 32 @ transcript @ ''\<newline>''
     @ ''\<newline>''
     @ indent 32 @ ''Provide a detailed, user-friendly, and actionable summary or response.\<newline>''
     @ indent 32"

text \<open>The part of the handler after the transcript is fetched.\<close>

definition youtube_dispatch :: "env \<Rightarrow> string \<Rightarrow> string \<Rightarrow> event list" where
  "youtube_dispatch e user_query transcript =
     (if str_in ''Could not retrieve transcript'' transcript
         \<or> str_in ''Transcripts are disabled'' transcript
         \<or> str_in ''No transcript found'' transcript
      then [StError transcript]
      else
        (case agent_run e (youtube_prompt user_query transcript) [] of
           Inr content \<Rightarrow>
             [AgentRun (youtube_prompt user_query transcript) [],
              StSubheader ''YouTube Video Summary'', StMarkdown content]
         | Inl err \<Rightarrow>
             [AgentRun (youtube_prompt user_query transcript) [],
              StError (''Error during summarization: '' @ err)]))"

definition analyze_youtube_button :: "env \<Rightarrow> string \<Rightarrow> string \<Rightarrow> event list" where
  "analyze_youtube_button e user_query youtube_url =
     (if strip user_query = [] then
        [StWarning
           ''Please enter a summarization request or ensure a predefined prompt is selected.'']
      else
        (case get_youtube_video_id youtube_url of
           None \<Rightarrow> [StError ''Invalid YouTube URL. Please enter a valid URL.'']
         | Some video_id \<Rightarrow>
             if video_id = [] then [StError ''Invalid YouTube URL. Please enter a valid URL.'']
             else youtube_dispatch e user_query
                    (fetch_youtube_transcript (list_transcripts e) video_id)))"

subsection \<open>Website URL\<close>

definition max_chars :: nat where
  "max_chars = 25000"

definition website_prompt :: "string \<Rightarrow> string \<Rightarrow> string" where
  "website_prompt user_query content =
     ''\<newline>'' @ indent 28 @ ''You are provided with text content extracted from a website.\<newline>''
     @ indent 28 @ ''Based on this content, respond to the following query: '' @ user_query
     @ ''\<newline>''
     @ ''\<newline>''
     @ indent 28 @ ''Website Content:\<newline>''
     @ indent 28 @ content @ ''\<newline>''
     @ ''\<newline>''
     @ indent 28 @ ''Provide a detailed, user-friendly, and actionable summary or response.\<newline>''
     @ indent 28"

text \<open>The part of the handler after the page's text is fetched.\<close>

definition website_dispatch :: "env \<Rightarrow> string \<Rightarrow> string \<Rightarrow> event list" where
  "website_dispatch e user_query content =
     (if str_in ''Error fetching website content'' content
         \<or> str_in ''Error parsing website content'' content
      then [StError content]
      else if strip content = [] then
        [StWarning
           ''Could not extract meaningful content from the website. It might be a very dynamic page or access is restricted.'']
      else
        let content' = (if length content > max_chars
                        then take max_chars content @ ''... [content truncated]''
                        else content)
        in (case agent_run e (website_prompt user_query content') [] of
              Inr response \<Rightarrow>
                [AgentRun (website_prompt user_query content') [],
                 StSubheader ''Website Content Summary'', StMarkdown response]
            | Inl err \<Rightarrow>
                [AgentRun (website_prompt user_query content') [],
                 StError (''Error during summarization: '' @ err)]))"

definition analyze_website_button :: "env \<Rightarrow> string \<Rightarrow> string \<Rightarrow> event list" where
  "analyze_website_button e user_query website_url =
     (if strip user_query = [] then
        [StWarning
           ''Please enter a summarization request or ensure a predefined prompt is selected.'']
      else website_dispatch e user_query (fetch_website_text (http e) website_url))"

text \<open>Whether a trace holds a call to the agent.\<close>

fun is_agent_run :: "event \<Rightarrow> bool" where
  "is_agent_run (AgentRun p vs) = True"
| "is_agent_run _ = False"

definition calls_agent :: "event list \<Rightarrow> bool" where
  "calls_agent tr = list_ex is_agent_run tr"

section \<open>A sample environment\<close>

text \<open>
  Services for running the actions on concrete inputs: the upload is still processing at
  the first re-fetch and ready at the second, the agent answers, the video's transcripts
  are disabled and the site has one paragraph.
\<close>

definition demo_env :: env where
  "demo_env =
     \<lparr>upload_file = (\<lambda>p. Inr \<lparr>name = ''files/abc'', state = PROCESSING,
                               error = \<lparr>message = []\<rparr>\<rparr>),
      get_file = (\<lambda>k n. Inr \<lparr>name = n, state = (if k = 0 then PROCESSING else ACTIVE),
                               error = \<lparr>message = []\<rparr>\<rparr>),
      agent_run = (\<lambda>p vs. Inr ''summary''),
      list_transcripts = (\<lambda>v. Inl TranscriptsDisabled),
      http = (\<lambda>u. Parsed [Text ''hello''])\<rparr>"

text \<open>
  The same services, but the upload has failed at the first re-fetch: once with an error
  whose message is empty, once with a message.
\<close>

definition failed_env :: env where
  "failed_env =
     demo_env\<lparr>get_file := (\<lambda>k n. Inr \<lparr>name = n, state = FAILED,
                                       error = \<lparr>message = []\<rparr>\<rparr>)\<rparr>"

definition failed_with_message_env :: env where
  "failed_with_message_env =
     demo_env\<lparr>get_file := (\<lambda>k n. Inr \<lparr>name = n, state = FAILED,
                                       error = \<lparr>message = ''Unsupported codec''\<rparr>\<rparr>)\<rparr>"

text \<open>
  Three transcript services: a video with a generated English transcript only, one with a
  manual and a generated English transcript, and one with no English transcript.
\<close>

definition generated_only :: "string \<Rightarrow> exn + transcript_list" where
  "generated_only video_id =
     Inr \<lparr>find_manually_created_transcript = (\<lambda>codes. Inl NoTranscriptFound),
          find_generated_transcript =
            (\<lambda>codes. if ''en'' \<in> set codes
                      then Inr (Inr [''never gonna'', ''give you up''])
                      else Inl NoTranscriptFound)\<rparr>"

definition manual_and_generated :: "string \<Rightarrow> exn + transcript_list" where
  "manual_and_generated video_id =
     Inr \<lparr>find_manually_created_transcript =
            (\<lambda>codes. if ''en'' \<in> set codes
                      then Inr (Inr [''Never gonna'', ''give you up.''])
                      else Inl NoTranscriptFound),
          find_generated_transcript =
            (\<lambda>codes. if ''en'' \<in> set codes
                      then Inr (Inr [''never gonna'', ''give you up''])
                      else Inl NoTranscriptFound)\<rparr>"


text \<open>
  The sample services with a video whose manual transcript quotes one of the failure
  sentences, and with a video whose transcript has no segment and a site whose only element
  is a script.
\<close>

definition quoting_env :: env where
  "quoting_env =
     demo_env\<lparr>list_transcripts :=
       (\<lambda>v. Inr \<lparr>find_manually_created_transcript =
                     (\<lambda>codes. Inr (Inr [''No transcript found'', ''in the archive''])),
                   find_generated_transcript = (\<lambda>codes. Inl NoTranscriptFound)\<rparr>)\<rparr>"

definition blank_env :: env where
  "blank_env =
     demo_env\<lparr>list_transcripts :=
                (\<lambda>v. Inr \<lparr>find_manually_created_transcript = (\<lambda>codes. Inr (Inr [])),
                            find_generated_transcript = (\<lambda>codes. Inl NoTranscriptFound)\<rparr>),
              http := (\<lambda>u. Parsed [Element ''script'' [Text ''var x = 1;'']])\<rparr>"

section \<open>Properties\<close>

subsection \<open>Strings\<close>

lemma strip_Nil_iff: "strip s = [] \<longleftrightarrow> (\<forall>c\<in>set s. isspace c)"
proof
  assume "strip s = []"
  then have a: "\<forall>c\<in>set (dropWhile isspace s). isspace c"
    by (simp add: strip_def)
  show "\<forall>c\<in>set s. isspace c"
  proof (cases "dropWhile isspace s")
    case Nil
    then show ?thesis by simp
  next
    case (Cons x xs)
    then have "\<not> isspace x" using hd_dropWhile [of isspace s] by simp
    with a Cons show ?thesis by simp
  qed
next
  assume "\<forall>c\<in>set s. isspace c"
  then show "strip s = []" by (auto simp: strip_def dest: set_dropWhileD)
qed

lemma startswith_set: "startswith s p \<Longrightarrow> set p \<subseteq> set s"
  by (induction s p rule: startswith.induct) auto

lemma str_in_set: "str_in p s \<Longrightarrow> set p \<subseteq> set s"
proof (induction s)
  case Nil
  then show ?case by simp
next
  case (Cons a s)
  from Cons.prems have "startswith (a # s) p \<or> str_in p s" by simp
  then show ?case
  proof
    assume "startswith (a # s) p"
    then show ?thesis by (rule startswith_set)
  next
    assume "str_in p s"
    then have "set p \<subseteq> set s" by (rule Cons.IH)
    then show ?thesis by auto
  qed
qed

lemma blank_has_no_substring:
  assumes "\<forall>c\<in>set t. isspace c" and "p \<noteq> []" and "\<not> isspace (hd p)"
  shows "\<not> str_in p t"
proof
  assume "str_in p t"
  then have "set p \<subseteq> set t" by (rule str_in_set)
  moreover from assms(2) have "hd p \<in> set p" by simp
  ultimately show False using assms(1,3) by auto
qed

subsection \<open>Traces\<close>

lemma calls_agent_append [simp]: "calls_agent (xs @ ys) \<longleftrightarrow> calls_agent xs \<or> calls_agent ys"
  by (simp add: calls_agent_def list_ex_iff) blast

lemma calls_agent_Cons [simp]: "calls_agent (x # xs) \<longleftrightarrow> is_agent_run x \<or> calls_agent xs"
  by (simp add: calls_agent_def)

lemma calls_agent_Nil [simp]: "\<not> calls_agent []"
  by (simp add: calls_agent_def)

subsection \<open>The instruction must not be blank\<close>

text \<open>
  C1. When the instruction is empty or has only whitespace characters, each of the three
  actions (video file, YouTube URL, website URL) shows its warning and does nothing else:
  its trace is the warning alone, so there is no call to the agent (and the video action
  leaves the file system as it was).
\<close>

theorem empty_instruction_never_reaches_agent:
  assumes "\<forall>c\<in>set user_query. isspace c"
  shows "analyze_video_button e user_query video_path fs =
           Some ([StWarning ''Please enter a question or ensure a predefined prompt is selected.''], fs)
       \<and> analyze_youtube_button e user_query youtube_url =
           [StWarning ''Please enter a summarization request or ensure a predefined prompt is selected.'']
       \<and> analyze_website_button e user_query website_url =
           [StWarning ''Please enter a summarization request or ensure a predefined prompt is selected.'']
       \<and> (\<exists>tr. analyze_video_button e user_query video_path fs = Some (tr, fs)
                \<and> \<not> calls_agent tr)
       \<and> \<not> calls_agent (analyze_youtube_button e user_query youtube_url)
       \<and> \<not> calls_agent (analyze_website_button e user_query website_url)"
proof -
  from assms have "strip user_query = []" by (simp add: strip_Nil_iff)
  then show ?thesis
    by (simp add: analyze_video_button_def analyze_youtube_button_def analyze_website_button_def
        calls_agent_def)
qed

theorem empty_instruction_never_reaches_agent_witness:
  "isspace CHR '' '' \<and> isspace CHR 0x09 \<and> isspace CHR 0x0A
   \<and> analyze_video_button demo_env [CHR '' '', CHR 0x09, CHR 0x0A] ''/tmp/v.mp4'' {''/tmp/v.mp4''} =
       Some ([StWarning ''Please enter a question or ensure a predefined prompt is selected.''],
             {''/tmp/v.mp4''})
   \<and> analyze_youtube_button demo_env [CHR '' '', CHR 0x09, CHR 0x0A] ''https://youtu.be/dQw4w9WgXcQ'' =
       [StWarning ''Please enter a summarization request or ensure a predefined prompt is selected.'']
   \<and> analyze_website_button demo_env [CHR '' '', CHR 0x09, CHR 0x0A] ''https://example.com/'' =
       [StWarning ''Please enter a summarization request or ensure a predefined prompt is selected.'']"
proof -
  have h: "\<forall>c\<in>set [CHR '' '', CHR 0x09, CHR 0x0A]. isspace c"
    by (simp add: isspace_def whitespace_chars_def)
  show ?thesis
    using h empty_instruction_never_reaches_agent [OF h, of demo_env "''/tmp/v.mp4''" "{''/tmp/v.mp4''}"
        "''https://youtu.be/dQw4w9WgXcQ''" "''https://example.com/''"]
    by simp
qed

subsection \<open>The budget of the website text\<close>

text \<open>
  C2. For every website text: a text that holds an error sentinel is shown as an error and
  a blank text gives the warning, and then no prompt is built. For every other text the
  agent is called, once, with the prompt written out below: the opening lines with the
  instruction, the line \<open>Website Content:\<close>, then the content, then the closing lines.
  The content is exactly the first 25,000 characters of the text followed by the marker
  \<open>... [content truncated]\<close> when the text is longer than 25,000 characters, and the text
  unchanged, with no marker, when it has at most 25,000 characters.
\<close>

theorem website_prompt_embeds_truncated_content:
  "(str_in ''Error fetching website content'' content
      \<or> str_in ''Error parsing website content'' content \<longrightarrow>
      website_dispatch e user_query content = [StError content])
   \<and> (\<not> str_in ''Error fetching website content'' content
        \<and> \<not> str_in ''Error parsing website content'' content
        \<and> strip content = [] \<longrightarrow>
      website_dispatch e user_query content =
        [StWarning ''Could not extract meaningful content from the website. It might be a very dynamic page or access is restricted.''])
   \<and> (\<not> str_in ''Error fetching website content'' content
        \<and> \<not> str_in ''Error parsing website content'' content
        \<and> strip content \<noteq> [] \<and> 25000 < length content \<longrightarrow>
      (\<exists>rest. website_dispatch e user_query content =
         AgentRun
           (''\<newline>'' @ replicate 28 CHR '' ''
            @ ''You are provided with text content extracted from a website.\<newline>''
            @ replicate 28 CHR '' ''
            @ ''Based on this content, respond to the following query: '' @ user_query
            @ ''\<newline>\<newline>'' @ replicate 28 CHR '' '' @ ''Website Content:\<newline>''
            @ replicate 28 CHR '' ''
            @ take 25000 content @ ''... [content truncated]''
            @ ''\<newline>\<newline>'' @ replicate 28 CHR '' ''
            @ ''Provide a detailed, user-friendly, and actionable summary or response.\<newline>''
            @ replicate 28 CHR '' '') [] # rest
         \<and> \<not> calls_agent rest))
   \<and> (\<not> str_in ''Error fetching website content'' content
        \<and> \<not> str_in ''Error parsing website content'' content
        \<and> strip content \<noteq> [] \<and> length content \<le> 25000 \<longrightarrow>
      (\<exists>rest. website_dispatch e user_query content =
         AgentRun
           (''\<newline>'' @ replicate 28 CHR '' ''
            @ ''You are provided with text content extracted from a website.\<newline>''
            @ replicate 28 CHR '' ''
            @ ''Based on this content, respond to the following query: '' @ user_query
            @ ''\<newline>\<newline>'' @ replicate 28 CHR '' '' @ ''Website Content:\<newline>''
            @ replicate 28 CHR '' ''
            @ content
            @ ''\<newline>\<newline>'' @ replicate 28 CHR '' ''
            @ ''Provide a detailed, user-friendly, and actionable summary or response.\<newline>''
            @ replicate 28 CHR '' '') [] # rest
         \<and> \<not> calls_agent rest))"
proof -
  have p: "\<And>c. website_prompt user_query c =
            ''\<newline>'' @ replicate 28 CHR '' ''
            @ ''You are provided with text content extracted from a website.\<newline>''
            @ replicate 28 CHR '' ''
            @ ''Based on this content, respond to the following query: '' @ user_query
            @ ''\<newline>\<newline>'' @ replicate 28 CHR '' '' @ ''Website Content:\<newline>''
            @ replicate 28 CHR '' ''
            @ c
            @ ''\<newline>\<newline>'' @ replicate 28 CHR '' ''
            @ ''Provide a detailed, user-friendly, and actionable summary or response.\<newline>''
            @ replicate 28 CHR '' ''"
    by (simp add: website_prompt_def indent_def)
  have d: "\<not> str_in ''Error fetching website content'' content \<Longrightarrow>
           \<not> str_in ''Error parsing website content'' content \<Longrightarrow> strip content \<noteq> [] \<Longrightarrow>
           \<exists>rest. website_dispatch e user_query content =
             AgentRun (website_prompt user_query
                         (if 25000 < length content
                          then take 25000 content @ ''... [content truncated]'' else content)) []
               # rest
             \<and> \<not> calls_agent rest"
    by (auto simp: website_dispatch_def max_chars_def Let_def split: sum.splits)
  have e1: "str_in ''Error fetching website content'' content
              \<or> str_in ''Error parsing website content'' content \<Longrightarrow>
            website_dispatch e user_query content = [StError content]"
    by (simp add: website_dispatch_def)
  have e2: "\<not> str_in ''Error fetching website content'' content \<Longrightarrow>
            \<not> str_in ''Error parsing website content'' content \<Longrightarrow> strip content = [] \<Longrightarrow>
            website_dispatch e user_query content =
              [StWarning ''Could not extract meaningful content from the website. It might be a very dynamic page or access is restricted.'']"
    by (simp add: website_dispatch_def)
  show ?thesis
  proof (intro conjI impI)
    assume "str_in ''Error fetching website content'' content
              \<or> str_in ''Error parsing website content'' content"
    then show "website_dispatch e user_query content = [StError content]" by (rule e1)
  next
    assume "\<not> str_in ''Error fetching website content'' content
        \<and> \<not> str_in ''Error parsing website content'' content \<and> strip content = []"
    then show "website_dispatch e user_query content =
        [StWarning ''Could not extract meaningful content from the website. It might be a very dynamic page or access is restricted.'']"
      using e2 by blast
  next
    assume a: "\<not> str_in ''Error fetching website content'' content
        \<and> \<not> str_in ''Error parsing website content'' content
        \<and> strip content \<noteq> [] \<and> 25000 < length content"
    then obtain rest where "website_dispatch e user_query content =
             AgentRun (website_prompt user_query
                         (take 25000 content @ ''... [content truncated]'')) [] # rest"
      and "\<not> calls_agent rest"
      using d by auto
    then show "\<exists>rest. website_dispatch e user_query content =
         AgentRun
           (''\<newline>'' @ replicate 28 CHR '' ''
            @ ''You are provided with text content extracted from a website.\<newline>''
            @ replicate 28 CHR '' ''
            @ ''Based on this content, respond to the following query: '' @ user_query
            @ ''\<newline>\<newline>'' @ replicate 28 CHR '' '' @ ''Website Content:\<newline>''
            @ replicate 28 CHR '' ''
            @ take 25000 content @ ''... [content truncated]''
            @ ''\<newline>\<newline>'' @ replicate 28 CHR '' ''
            @ ''Provide a detailed, user-friendly, and actionable summary or response.\<newline>''
            @ replicate 28 CHR '' '') [] # rest
         \<and> \<not> calls_agent rest"
      unfolding p by (intro exI [of _ rest]) simp
  next
    assume a: "\<not> str_in ''Error fetching website content'' content
        \<and> \<not> str_in ''Error parsing website content'' content
        \<and> strip content \<noteq> [] \<and> length content \<le> 25000"
    then obtain rest where "website_dispatch e user_query content =
             AgentRun (website_prompt user_query content) [] # rest"
      and "\<not> calls_agent rest"
      using d by auto
    then show "\<exists>rest. website_dispatch e user_query content =
         AgentRun
           (''\<newline>'' @ replicate 28 CHR '' ''
            @ ''You are provided with text content extracted from a website.\<newline>''
            @ replicate 28 CHR '' ''
            @ ''Based on this content, respond to the following query: '' @ user_query
            @ ''\<newline>\<newline>'' @ replicate 28 CHR '' '' @ ''Website Content:\<newline>''
            @ replicate 28 CHR '' ''
            @ content
            @ ''\<newline>\<newline>'' @ replicate 28 CHR '' ''
            @ ''Provide a detailed, user-friendly, and actionable summary or response.\<newline>''
            @ replicate 28 CHR '' '') [] # rest
         \<and> \<not> calls_agent rest"
      unfolding p by (intro exI [of _ rest]) simp
  qed
qed

theorem website_prompt_embeds_truncated_content_witness:
  "website_dispatch demo_env ''Key points?'' (replicate 25001 CHR ''a'') =
     [AgentRun
        (''\<newline>'' @ replicate 28 CHR '' ''
         @ ''You are provided with text content extracted from a website.\<newline>''
         @ replicate 28 CHR '' ''
         @ ''Based on this content, respond to the following query: Key points?''
         @ ''\<newline>\<newline>'' @ replicate 28 CHR '' '' @ ''Website Content:\<newline>''
         @ replicate 28 CHR '' ''
         @ replicate 25000 CHR ''a'' @ ''... [content truncated]''
         @ ''\<newline>\<newline>'' @ replicate 28 CHR '' ''
         @ ''Provide a detailed, user-friendly, and actionable summary or response.\<newline>''
         @ replicate 28 CHR '' '') [],
      StSubheader ''Website Content Summary'', StMarkdown ''summary'']
   \<and> website_dispatch demo_env ''Key points?'' ''hello world'' =
     [AgentRun
        (''\<newline>'' @ replicate 28 CHR '' ''
         @ ''You are provided with text content extracted from a website.\<newline>''
         @ replicate 28 CHR '' ''
         @ ''Based on this content, respond to the following query: Key points?''
         @ ''\<newline>\<newline>'' @ replicate 28 CHR '' '' @ ''Website Content:\<newline>''
         @ replicate 28 CHR '' ''
         @ ''hello world''
         @ ''\<newline>\<newline>'' @ replicate 28 CHR '' ''
         @ ''Provide a detailed, user-friendly, and actionable summary or response.\<newline>''
         @ replicate 28 CHR '' '') [],
      StSubheader ''Website Content Summary'', StMarkdown ''summary'']
   \<and> website_dispatch demo_env ''Key points?'' ''Error fetching website content: timeout'' =
     [StError ''Error fetching website content: timeout'']
   \<and> website_dispatch demo_env ''Key points?'' ''  '' =
     [StWarning ''Could not extract meaningful content from the website. It might be a very dynamic page or access is restricted.'']"
proof -
  let ?long = "replicate 25001 CHR ''a''"
  let ?q = "''Key points?''"
  have l: "\<not> str_in ''Error fetching website content'' ?long
           \<and> \<not> str_in ''Error parsing website content'' ?long
           \<and> strip ?long \<noteq> [] \<and> 25000 < length ?long"
    using str_in_set [of "''Error fetching website content''" ?long]
      str_in_set [of "''Error parsing website content''" ?long]
    by (auto simp: strip_Nil_iff isspace_def whitespace_chars_def)
  have s: "\<not> str_in ''Error fetching website content'' ''hello world''
           \<and> \<not> str_in ''Error parsing website content'' ''hello world''
           \<and> strip ''hello world'' \<noteq> [] \<and> length ''hello world'' \<le> 25000"
    by (simp add: strip_Nil_iff isspace_def whitespace_chars_def)
  have f: "str_in ''Error fetching website content'' ''Error fetching website content: timeout''
           \<or> str_in ''Error parsing website content'' ''Error fetching website content: timeout''"
    by simp
  have b: "\<not> str_in ''Error fetching website content'' ''  ''
           \<and> \<not> str_in ''Error parsing website content'' ''  '' \<and> strip ''  '' = []"
    by (simp add: strip_Nil_iff isspace_def whitespace_chars_def)
  have tk: "take 25000 ?long = replicate 25000 CHR ''a''" by simp
  note tl = website_prompt_embeds_truncated_content [of ?long demo_env ?q]
  note ts = website_prompt_embeds_truncated_content [of "''hello world''" demo_env ?q]
  note tf = website_prompt_embeds_truncated_content
              [of "''Error fetching website content: timeout''" demo_env ?q]
  note tb = website_prompt_embeds_truncated_content [of "''  ''" demo_env ?q]
  from tl l obtain r1 where
    c1: "website_dispatch demo_env ?q ?long =
     AgentRun
        (''\<newline>'' @ replicate 28 CHR '' ''
         @ ''You are provided with text content extracted from a website.\<newline>''
         @ replicate 28 CHR '' ''
         @ ''Based on this content, respond to the following query: '' @ ?q
         @ ''\<newline>\<newline>'' @ replicate 28 CHR '' '' @ ''Website Content:\<newline>''
         @ replicate 28 CHR '' ''
         @ take 25000 ?long @ ''... [content truncated]''
         @ ''\<newline>\<newline>'' @ replicate 28 CHR '' ''
         @ ''Provide a detailed, user-friendly, and actionable summary or response.\<newline>''
         @ replicate 28 CHR '' '') [] # r1"
    by blast
  from ts s obtain r2 where
    c2: "website_dispatch demo_env ?q ''hello world'' =
     AgentRun
        (''\<newline>'' @ replicate 28 CHR '' ''
         @ ''You are provided with text content extracted from a website.\<newline>''
         @ replicate 28 CHR '' ''
         @ ''Based on this content, respond to the following query: '' @ ?q
         @ ''\<newline>\<newline>'' @ replicate 28 CHR '' '' @ ''Website Content:\<newline>''
         @ replicate 28 CHR '' ''
         @ ''hello world''
         @ ''\<newline>\<newline>'' @ replicate 28 CHR '' ''
         @ ''Provide a detailed, user-friendly, and actionable summary or response.\<newline>''
         @ replicate 28 CHR '' '') [] # r2"
    by blast
  from tf f have c3: "website_dispatch demo_env ?q ''Error fetching website content: timeout'' =
     [StError ''Error fetching website content: timeout'']"
    by blast
  from tb b have c4: "website_dispatch demo_env ?q ''  '' =
     [StWarning ''Could not extract meaningful content from the website. It might be a very dynamic page or access is restricted.'']"
    by blast
  have a: "\<And>p. agent_run demo_env p [] = Inr ''summary''" by (simp add: demo_env_def)
  have r1: "r1 = [StSubheader ''Website Content Summary'', StMarkdown ''summary'']"
    using c1 l a by (simp add: website_dispatch_def Let_def max_chars_def)
  have r2: "r2 = [StSubheader ''Website Content Summary'', StMarkdown ''summary'']"
    using c2 s a by (simp add: website_dispatch_def Let_def max_chars_def)
  from c1 c2 c3 c4 show ?thesis
    unfolding r1 r2 tk by simp
qed

subsection \<open>Polling the uploaded video\<close>

lemma state_name_PROCESSING [simp]: "state_name s = ''PROCESSING'' \<longleftrightarrow> s = PROCESSING"
  by (cases s) simp_all

lemma state_name_FAILED [simp]: "state_name s = ''FAILED'' \<longleftrightarrow> s = FAILED"
  by (cases s) simp_all

lemma poll_stop:
  "state pv \<noteq> PROCESSING \<Longrightarrow> poll fetch k tr pv = Some (tr, Inr pv)"
  by (subst poll.simps) simp

lemma poll_step:
  "state pv = PROCESSING \<Longrightarrow> fetch k (name pv) = Inr pv' \<Longrightarrow>
   poll fetch k tr pv = poll fetch (Suc k) (tr @ [Sleep 2, GetFile (name pv)]) pv'"
  by (subst poll.simps) simp

lemma poll_steps:
  assumes "\<forall>j<m. state (h j) = PROCESSING \<and> fetch j (name (h j)) = Inr (h (Suc j))"
  shows "poll fetch 0 tr (h 0) =
         poll fetch m (tr @ concat (map (\<lambda>j. [Sleep 2, GetFile (name (h j))]) [0..<m])) (h m)"
  using assms
proof (induction m)
  case 0
  then show ?case by simp
next
  case (Suc m)
  then have "poll fetch 0 tr (h 0) =
         poll fetch m (tr @ concat (map (\<lambda>j. [Sleep 2, GetFile (name (h j))]) [0..<m])) (h m)"
    by simp
  also have "\<dots> = poll fetch (Suc m)
         ((tr @ concat (map (\<lambda>j. [Sleep 2, GetFile (name (h j))]) [0..<m]))
            @ [Sleep 2, GetFile (name (h m))]) (h (Suc m))"
    using Suc.prems by (intro poll_step) simp_all
  finally show ?case by simp
qed

lemma poll_result:
  assumes "\<forall>j<n. state (h j) = PROCESSING \<and> fetch j (name (h j)) = Inr (h (Suc j))"
      and "state (h n) \<noteq> PROCESSING"
  shows "poll fetch 0 tr (h 0) =
         Some (tr @ concat (map (\<lambda>j. [Sleep 2, GetFile (name (h j))]) [0..<n]), Inr (h n))"
  using poll_steps [of n h fetch tr] poll_stop [OF assms(2)] assms(1) by simp

lemma polls_no_agent:
  "\<not> calls_agent (concat (map (\<lambda>j. [Sleep 2, GetFile (f j)]) ks))"
  by (induction ks) (simp_all add: calls_agent_def)

text \<open>
  What holds of the polling. Let the media service report the handles \<open>h 0\<close> (from the
  upload), \<open>h 1\<close>, \<open>h 2\<close>, ... (from the re-fetches), with \<open>h n\<close> the first whose state is not
  \<open>PROCESSING\<close>. Then the action returns, and after the upload its trace is exactly \<open>n\<close>
  rounds of a sleep of the fixed interval and a re-fetch, one for each handle before
  \<open>h n\<close>. If \<open>h n\<close> is ready (\<open>ACTIVE\<close>), the next effect is the call of the agent with
  \<open>h n\<close>, and there is no other call. If \<open>h n\<close> is \<open>FAILED\<close>, the rest is the error banner
  with the message of the handle's error, the stop and the cleanup, and the agent is never
  called.
\<close>

lemma polling_until_first_non_processing:
  assumes q: "strip user_query \<noteq> []"
      and up: "upload_file e video_path = Inr (h 0)"
      and run: "\<forall>j<n. state (h j) = PROCESSING \<and> get_file e j (name (h j)) = Inr (h (Suc j))"
      and fin: "state (h n) \<noteq> PROCESSING"
  shows "\<exists>rest. analyze_video_button e user_query video_path fs =
            Some (UploadFile video_path
                    # concat (map (\<lambda>j. [Sleep 2, GetFile (name (h j))]) [0..<n]) @ rest,
                  fs - {video_path})
          \<and> (state (h n) = ACTIVE \<longrightarrow>
                (\<exists>rest'. rest = AgentRun (video_prompt user_query) [h n] # rest'
                        \<and> \<not> calls_agent rest'))
          \<and> (state (h n) = FAILED \<longrightarrow>
                rest = [StError (''Video processing failed. Error: '' @ message (error (h n))),
                        StStop] @ (if video_path \<in> fs then [Unlink video_path] else [])
                \<and> \<not> calls_agent
                      (UploadFile video_path
                         # concat (map (\<lambda>j. [Sleep 2, GetFile (name (h j))]) [0..<n]) @ rest))"
proof -
  let ?polls = "concat (map (\<lambda>j. [Sleep 2, GetFile (name (h j))]) [0..<n])"
  have p: "poll (get_file e) 0 [UploadFile video_path] (h 0) =
           Some ([UploadFile video_path] @ ?polls, Inr (h n))"
    using run fin by (rule poll_result)
  show ?thesis
  proof (cases "state (h n) = FAILED")
    case True
    then show ?thesis
      using q up p polls_no_agent [of "\<lambda>j. name (h j)" "[0..<n]"]
      by (simp add: analyze_video_button_def video_try_def truthy_status_def)
  next
    case False
    with fin show ?thesis
      using q up p
      by (auto simp: analyze_video_button_def video_try_def Let_def split: sum.splits)
  qed
qed

text \<open>
  Two runs: processing, processing, ready; and processing, failed with a message.
\<close>

lemma polling_sample_runs:
  "analyze_video_button demo_env ''Key points?'' ''/tmp/v.mp4'' {''/tmp/v.mp4''} =
     Some ([UploadFile ''/tmp/v.mp4'', Sleep 2, GetFile ''files/abc'', Sleep 2,
            GetFile ''files/abc'',
            AgentRun (video_prompt ''Key points?'')
              [\<lparr>name = ''files/abc'', state = ACTIVE, error = \<lparr>message = []\<rparr>\<rparr>],
            StSubheader ''Video File Analysis Result'', StMarkdown ''summary'',
            Unlink ''/tmp/v.mp4''], {})
   \<and> analyze_video_button failed_with_message_env ''Key points?'' ''/tmp/v.mp4''
       {''/tmp/v.mp4''} =
     Some ([UploadFile ''/tmp/v.mp4'', Sleep 2, GetFile ''files/abc'',
            StError ''Video processing failed. Error: Unsupported codec'', StStop,
            Unlink ''/tmp/v.mp4''], {})"
proof -
  let ?ready = "\<lambda>k::nat. \<lparr>name = ''files/abc'',
                            state = (if k < 2 then PROCESSING else ACTIVE),
                            error = \<lparr>message = []\<rparr>\<rparr>"
  let ?failed = "\<lambda>k::nat. \<lparr>name = ''files/abc'', state = (if k < 1 then PROCESSING else FAILED),
                             error = \<lparr>message = (if k < 1 then [] else ''Unsupported codec'')\<rparr>\<rparr>"
  have q: "strip ''Key points?'' \<noteq> []"
    by (simp add: strip_Nil_iff isspace_def whitespace_chars_def)
  have r0: "upload_file demo_env ''/tmp/v.mp4'' = Inr (?ready 0)"
    by (simp add: demo_env_def)
  have r1: "\<forall>j<2. state (?ready j) = PROCESSING
                 \<and> get_file demo_env j (name (?ready j)) = Inr (?ready (Suc j))"
    by (auto simp: demo_env_def less_Suc_eq numeral_2_eq_2)
  have r2: "state (?ready 2) \<noteq> PROCESSING" by simp
  have f0: "upload_file failed_with_message_env ''/tmp/v.mp4'' = Inr (?failed 0)"
    by (simp add: failed_with_message_env_def demo_env_def)
  have f1: "\<forall>j<1. state (?failed j) = PROCESSING
                 \<and> get_file failed_with_message_env j (name (?failed j)) = Inr (?failed (Suc j))"
    by (simp add: failed_with_message_env_def demo_env_def)
  have f2: "state (?failed 1) \<noteq> PROCESSING" by simp
  note a = polling_until_first_non_processing [OF q r0 r1 r2, of "{''/tmp/v.mp4''}"]
  note b = polling_until_first_non_processing [OF q f0 f1 f2, of "{''/tmp/v.mp4''}"]
  have tr2: "[0..<2] = [0, Suc 0]" by (simp add: numeral_2_eq_2)
  from a obtain rest' where
    "analyze_video_button demo_env ''Key points?'' ''/tmp/v.mp4'' {''/tmp/v.mp4''} =
       Some ([UploadFile ''/tmp/v.mp4'', Sleep 2, GetFile ''files/abc'', Sleep 2,
              GetFile ''files/abc'',
              AgentRun (video_prompt ''Key points?'')
                [\<lparr>name = ''files/abc'', state = ACTIVE, error = \<lparr>message = []\<rparr>\<rparr>]] @ rest', {})"
    by (auto simp: tr2)
  moreover have "analyze_video_button demo_env ''Key points?'' ''/tmp/v.mp4'' {''/tmp/v.mp4''} =
       Some ([UploadFile ''/tmp/v.mp4'', Sleep 2, GetFile ''files/abc'', Sleep 2,
              GetFile ''files/abc'',
              AgentRun (video_prompt ''Key points?'')
                [\<lparr>name = ''files/abc'', state = ACTIVE, error = \<lparr>message = []\<rparr>\<rparr>]]
             @ [StSubheader ''Video File Analysis Result'', StMarkdown ''summary'',
                Unlink ''/tmp/v.mp4''], {})"
    using q by (simp add: analyze_video_button_def video_try_def demo_env_def poll.simps)
  ultimately show ?thesis
    using b by (auto simp: failed_with_message_env_def demo_env_def)
qed

text \<open>
  C3. The claim is that a failed upload shows the service's error message, or
  \<open>Unknown error\<close> if none is present. The code tests \<open>processed_video.error\<close>, which is
  an object and always counts as true, so the fallback is never taken: when the upload
  goes from processing to failed and the service gives no message (the message of the
  error is empty), the banner ends after \<open>Error: \<close> and \<open>Unknown error\<close> is not shown.
  The stop and the cleanup follow, and the agent is not called.
\<close>

theorem failed_upload_with_empty_message_shows_no_fallback:
  "get_file failed_env 0 ''files/abc'' =
     Inr \<lparr>name = ''files/abc'', state = FAILED, error = \<lparr>message = []\<rparr>\<rparr>
   \<and> analyze_video_button failed_env ''Key points?'' ''/tmp/v.mp4'' {''/tmp/v.mp4''} =
     Some ([UploadFile ''/tmp/v.mp4'', Sleep 2, GetFile ''files/abc'',
            StError ''Video processing failed. Error: '', StStop, Unlink ''/tmp/v.mp4''], {})"
proof -
  have q: "strip ''Key points?'' \<noteq> []"
    by (simp add: strip_Nil_iff isspace_def whitespace_chars_def)
  then show ?thesis
    by (simp add: analyze_video_button_def video_try_def failed_env_def demo_env_def poll.simps
        truthy_status_def)
qed

subsection \<open>The temporary file of the uploaded video\<close>

text \<open>
  Once the instruction has passed the check, the \<open>finally\<close> block removes the temporary
  file on every way out of the \<open>try\<close> block: whenever the action returns, the file is gone.
\<close>

lemma temporary_file_deleted_after_try:
  assumes "strip user_query \<noteq> []"
      and "video_file_action e user_query video_path fs = Some (tr, fs')"
  shows "video_path \<notin> fs' \<and> fs' = fs - {video_path}"
  using assms
  by (auto simp: video_file_action_def analyze_video_button_def Let_def split: option.splits)

text \<open>
  C4. The claim is that the temporary file is absent after the action on every exit path.
  The path that rejects a blank instruction is not covered by the \<open>finally\<close> block: on the
  empty instruction (the custom prompt with nothing typed) the action shows the warning and
  ends with the temporary file still on the file system.
\<close>

theorem blank_instruction_leaves_temporary_file:
  "video_file_action demo_env '''' ''/tmp/tmpk3x9.mp4'' {} =
     Some ([StWarning ''Please enter a question or ensure a predefined prompt is selected.''],
           {''/tmp/tmpk3x9.mp4''})"
  by (simp add: video_file_action_def analyze_video_button_def strip_def isspace_def
      whitespace_chars_def)

subsection \<open>The transcript fetcher\<close>

text \<open>
  C6. When the transcripts of the video can be listed: if a manually created English
  transcript is found, the result is its segments' texts joined by single spaces, whatever
  the generated ones are; if none is found (\<open>NoTranscriptFound\<close>) and a generated English
  transcript is, the result is that transcript's segments' texts joined by single spaces.
\<close>

theorem manual_transcript_first_then_generated:
  assumes "service video_id = Inr transcripts"
  shows "(find_manually_created_transcript transcripts [''en''] = Inr (Inr items) \<longrightarrow>
            fetch_youtube_transcript service video_id = join '' '' items)
       \<and> (find_manually_created_transcript transcripts [''en''] = Inl NoTranscriptFound
            \<and> find_generated_transcript transcripts [''en''] = Inr (Inr items) \<longrightarrow>
            fetch_youtube_transcript service video_id = join '' '' items)"
  using assms
  by (simp add: fetch_youtube_transcript_def fetch_youtube_transcript_try_def
      target_language_codes_def)

theorem manual_transcript_first_then_generated_witness:
  "fetch_youtube_transcript generated_only ''dQw4w9WgXcQ'' = ''never gonna give you up''
   \<and> fetch_youtube_transcript manual_and_generated ''dQw4w9WgXcQ'' = ''Never gonna give you up.''"
  using manual_transcript_first_then_generated
          [of generated_only "''dQw4w9WgXcQ''"
              "\<lparr>find_manually_created_transcript = (\<lambda>codes. Inl NoTranscriptFound),
                find_generated_transcript =
                  (\<lambda>codes. if ''en'' \<in> set codes
                            then Inr (Inr [''never gonna'', ''give you up''])
                            else Inl NoTranscriptFound)\<rparr>"
              "[''never gonna'', ''give you up'']"]
        manual_transcript_first_then_generated
          [of manual_and_generated "''dQw4w9WgXcQ''"
              "\<lparr>find_manually_created_transcript =
                  (\<lambda>codes. if ''en'' \<in> set codes
                            then Inr (Inr [''Never gonna'', ''give you up.''])
                            else Inl NoTranscriptFound),
                find_generated_transcript =
                  (\<lambda>codes. if ''en'' \<in> set codes
                            then Inr (Inr [''never gonna'', ''give you up''])
                            else Inl NoTranscriptFound)\<rparr>"
              "[''Never gonna'', ''give you up.'']"]
  by (simp add: generated_only_def manual_and_generated_def)



subsection \<open>How the actions read the extractors' results\<close>

lemma video_id_of_short_link:
  "get_youtube_video_id ''https://youtu.be/dQw4w9WgXcQ'' = Some ''dQw4w9WgXcQ''"
  by code_simp

text \<open>
  C9. For an instruction that is not blank and a URL with a video identifier, the YouTube
  action shows the fetcher's result as an error exactly when that string contains one of
  \<open>Could not retrieve transcript\<close>, \<open>Transcripts are disabled\<close>, \<open>No transcript found\<close>,
  and calls the agent exactly when it contains none. So a transcript that was fetched
  with success is taken for a failure when its own text contains such a sentence: for the
  transcript \<open>No transcript found in the archive\<close> the action shows an error and never
  calls the agent.
\<close>

theorem sentinel_substring_decides_failure:
  assumes "strip user_query \<noteq> []"
      and "get_youtube_video_id youtube_url = Some video_id"
      and "video_id \<noteq> []"
      and "transcript = fetch_youtube_transcript (list_transcripts e) video_id"
  shows "((analyze_youtube_button e user_query youtube_url = [StError transcript]) =
           (str_in ''Could not retrieve transcript'' transcript
            \<or> str_in ''Transcripts are disabled'' transcript
            \<or> str_in ''No transcript found'' transcript))
       \<and> (calls_agent (analyze_youtube_button e user_query youtube_url) =
           (\<not> (str_in ''Could not retrieve transcript'' transcript
               \<or> str_in ''Transcripts are disabled'' transcript
               \<or> str_in ''No transcript found'' transcript)))
       \<and> fetch_youtube_transcript_try (list_transcripts quoting_env) ''dQw4w9WgXcQ'' =
           Inr ''No transcript found in the archive''
       \<and> analyze_youtube_button quoting_env ''Summarize.'' ''https://youtu.be/dQw4w9WgXcQ'' =
           [StError ''No transcript found in the archive'']
       \<and> \<not> calls_agent
             (analyze_youtube_button quoting_env ''Summarize.'' ''https://youtu.be/dQw4w9WgXcQ'')"
proof -
  have q: "strip ''Summarize.'' \<noteq> []"
    by (simp add: strip_Nil_iff isspace_def whitespace_chars_def)
  have t: "fetch_youtube_transcript_try (list_transcripts quoting_env) ''dQw4w9WgXcQ'' =
             Inr ''No transcript found in the archive''"
    by (simp add: quoting_env_def fetch_youtube_transcript_try_def target_language_codes_def)
  have b: "analyze_youtube_button quoting_env ''Summarize.'' ''https://youtu.be/dQw4w9WgXcQ'' =
             [StError ''No transcript found in the archive'']"
    using q t
    by (simp add: analyze_youtube_button_def video_id_of_short_link youtube_dispatch_def
        fetch_youtube_transcript_def)
  have g: "(analyze_youtube_button e user_query youtube_url = [StError transcript]) =
           (str_in ''Could not retrieve transcript'' transcript
            \<or> str_in ''Transcripts are disabled'' transcript
            \<or> str_in ''No transcript found'' transcript)"
    using assms
    by (auto simp: analyze_youtube_button_def youtube_dispatch_def split: sum.splits)
  have c: "calls_agent (analyze_youtube_button e user_query youtube_url) =
           (\<not> (str_in ''Could not retrieve transcript'' transcript
               \<or> str_in ''Transcripts are disabled'' transcript
               \<or> str_in ''No transcript found'' transcript))"
    using assms
    by (auto simp: analyze_youtube_button_def youtube_dispatch_def split: sum.splits)
  from g c t b show ?thesis by simp
qed

theorem sentinel_substring_decides_failure_witness:
  "str_in ''No transcript found''
     (fetch_youtube_transcript (list_transcripts quoting_env) ''dQw4w9WgXcQ'')
   \<and> analyze_youtube_button quoting_env ''Summarize.'' ''https://youtu.be/dQw4w9WgXcQ'' =
       [StError (fetch_youtube_transcript (list_transcripts quoting_env) ''dQw4w9WgXcQ'')]
   \<and> \<not> calls_agent
         (analyze_youtube_button quoting_env ''Summarize.'' ''https://youtu.be/dQw4w9WgXcQ'')"
proof -
  have q: "strip ''Summarize.'' \<noteq> []"
    by (simp add: strip_Nil_iff isspace_def whitespace_chars_def)
  have s: "str_in ''No transcript found''
             (fetch_youtube_transcript (list_transcripts quoting_env) ''dQw4w9WgXcQ'')"
    by (simp add: quoting_env_def fetch_youtube_transcript_def fetch_youtube_transcript_try_def
        target_language_codes_def)
  have n: "''dQw4w9WgXcQ'' \<noteq> []" by simp
  from sentinel_substring_decides_failure [OF q video_id_of_short_link n refl, of quoting_env] s
  show ?thesis by simp
qed

text \<open>
  C10. For an instruction that is not blank and a text that is empty or all whitespace:
  when the transcript fetch succeeds with that text, the YouTube action builds the prompt
  with it and calls the agent; when the web text extractor returns that text, the website
  action shows its warning and does nothing else. Only the website action checks for
  blank content. The prompt of the YouTube action is written out: the text, empty or
  blank as it is, stands after the line \<open>Transcript:\<close>.
\<close>

theorem blank_content_checked_on_website_only:
  assumes "strip user_query \<noteq> []"
      and "\<forall>c\<in>set content. isspace c"
  shows "(get_youtube_video_id youtube_url = Some video_id \<and> video_id \<noteq> []
          \<and> fetch_youtube_transcript_try (list_transcripts e) video_id = Inr content \<longrightarrow>
            (\<exists>rest. analyze_youtube_button e user_query youtube_url =
                      AgentRun (youtube_prompt user_query content) [] # rest))
       \<and> (fetch_website_text (http e) website_url = content \<longrightarrow>
            analyze_website_button e user_query website_url =
              [StWarning ''Could not extract meaningful content from the website. It might be a very dynamic page or access is restricted.''])
       \<and> youtube_prompt user_query content =
            ''\<newline>'' @ replicate 32 CHR '' ''
            @ ''You are provided with a transcript from a YouTube video.\<newline>''
            @ replicate 32 CHR '' ''
            @ ''Based on this transcript, respond to the following query: '' @ user_query
            @ ''\<newline>\<newline>'' @ replicate 32 CHR '' '' @ ''Transcript:\<newline>''
            @ replicate 32 CHR '' ''
            @ content
            @ ''\<newline>\<newline>'' @ replicate 32 CHR '' ''
            @ ''Provide a detailed, user-friendly, and actionable summary or response.\<newline>''
            @ replicate 32 CHR '' ''"
proof -
  have ns: "\<not> isspace CHR ''C''" "\<not> isspace CHR ''T''" "\<not> isspace CHR ''N''" "\<not> isspace CHR ''E''"
    by (simp_all add: isspace_def whitespace_chars_def)
  note blank = blank_has_no_substring [OF assms(2)]
  have y: "\<not> str_in ''Could not retrieve transcript'' content"
          "\<not> str_in ''Transcripts are disabled'' content"
          "\<not> str_in ''No transcript found'' content"
    using ns by (simp_all add: blank)
  have w: "\<not> str_in ''Error fetching website content'' content"
          "\<not> str_in ''Error parsing website content'' content"
    using ns by (simp_all add: blank)
  have s: "strip content = []" using assms(2) by (simp add: strip_Nil_iff)
  have actions:
    "(get_youtube_video_id youtube_url = Some video_id \<and> video_id \<noteq> []
          \<and> fetch_youtube_transcript_try (list_transcripts e) video_id = Inr content \<longrightarrow>
            (\<exists>rest. analyze_youtube_button e user_query youtube_url =
                      AgentRun (youtube_prompt user_query content) [] # rest))
       \<and> (fetch_website_text (http e) website_url = content \<longrightarrow>
            analyze_website_button e user_query website_url =
              [StWarning ''Could not extract meaningful content from the website. It might be a very dynamic page or access is restricted.''])"
    using assms(1) y w s
    by (auto simp: analyze_youtube_button_def youtube_dispatch_def fetch_youtube_transcript_def
        analyze_website_button_def website_dispatch_def split: sum.splits)
  have prompt: "youtube_prompt user_query content =
            ''\<newline>'' @ replicate 32 CHR '' ''
            @ ''You are provided with a transcript from a YouTube video.\<newline>''
            @ replicate 32 CHR '' ''
            @ ''Based on this transcript, respond to the following query: '' @ user_query
            @ ''\<newline>\<newline>'' @ replicate 32 CHR '' '' @ ''Transcript:\<newline>''
            @ replicate 32 CHR '' ''
            @ content
            @ ''\<newline>\<newline>'' @ replicate 32 CHR '' ''
            @ ''Provide a detailed, user-friendly, and actionable summary or response.\<newline>''
            @ replicate 32 CHR '' ''"
    by (simp add: youtube_prompt_def indent_def)
  from actions prompt show ?thesis by blast
qed

theorem blank_content_checked_on_website_only_witness:
  "analyze_youtube_button blank_env ''Summarize.'' ''https://youtu.be/dQw4w9WgXcQ'' =
     [AgentRun (youtube_prompt ''Summarize.'' []) [],
      StSubheader ''YouTube Video Summary'', StMarkdown ''summary'']
   \<and> analyze_website_button blank_env ''Summarize.'' ''https://example.com/'' =
     [StWarning ''Could not extract meaningful content from the website. It might be a very dynamic page or access is restricted.'']"
proof -
  have q: "strip ''Summarize.'' \<noteq> []"
    by (simp add: strip_Nil_iff isspace_def whitespace_chars_def)
  have b: "\<forall>c\<in>set ([] :: string). isspace c" by simp
  have t: "fetch_youtube_transcript_try (list_transcripts blank_env) ''dQw4w9WgXcQ'' = Inr []"
    by (simp add: blank_env_def fetch_youtube_transcript_try_def target_language_codes_def)
  have w: "fetch_website_text (http blank_env) ''https://example.com/'' = []"
    by (simp add: blank_env_def fetch_website_text_def get_text_strip_def ws_run_def)
  have a: "agent_run blank_env (youtube_prompt ''Summarize.'' []) [] = Inr ''summary''"
    by (simp add: blank_env_def demo_env_def)
  from blank_content_checked_on_website_only
         [OF q b, of "''https://youtu.be/dQw4w9WgXcQ''" "''dQw4w9WgXcQ''" blank_env
             "''https://example.com/''"]
       video_id_of_short_link t w
  have s: "analyze_website_button blank_env ''Summarize.'' ''https://example.com/'' =
     [StWarning ''Could not extract meaningful content from the website. It might be a very dynamic page or access is restricted.'']"
    by blast
  have "analyze_youtube_button blank_env ''Summarize.'' ''https://youtu.be/dQw4w9WgXcQ'' =
     [AgentRun (youtube_prompt ''Summarize.'' []) [],
      StSubheader ''YouTube Video Summary'', StMarkdown ''summary'']"
    using q t a
    by (simp add: analyze_youtube_button_def video_id_of_short_link youtube_dispatch_def
        fetch_youtube_transcript_def)
  with s show ?thesis by simp
qed

subsection \<open>The web text extractor\<close>

text \<open>
  The pattern \<^verbatim>\<open>\s\s+\<close> needs two whitespace characters. The lemmas below read
  \<open>re.sub\<close> with this pattern as a scan: at two whitespace characters side by side the whole
  run is replaced, any other character is copied.
\<close>

declare re_sub.simps [simp del]

lemma plus_greedy_Nil_iff: "plus_greedy c s = [] \<longleftrightarrow> s = [] \<or> \<not> in_class c (hd s)"
  by (cases s) simp_all

lemma plus_greedy_hd:
  "in_class c x \<Longrightarrow> hd (plus_greedy c (x # xs)) = dropWhile (in_class c) xs"
proof (induction xs arbitrary: x)
  case Nil
  then show ?case by simp
next
  case (Cons y ys)
  show ?case
  proof (cases "in_class c y")
    case True
    then have "plus_greedy c (y # ys) \<noteq> []" by simp
    then have "hd (plus_greedy c (x # y # ys)) = hd (plus_greedy c (y # ys))"
      using Cons.prems by simp
    also have "\<dots> = dropWhile (in_class c) ys" using True by (rule Cons.IH)
    finally show ?thesis using True by simp
  next
    case False
    then show ?thesis using Cons.prems by simp
  qed
qed

lemma in_class_ws [simp]: "in_class (OneOf [WS]) = isspace"
  by (rule ext) simp

lemma rmatch_ws_run_none:
  "\<not> (isspace x \<and> xs \<noteq> [] \<and> isspace (hd xs)) \<Longrightarrow> rmatch ws_run (x # xs, g) = []"
  by (cases xs) (auto simp: ws_run_def)

lemma rmatch_ws_run_some:
  assumes "isspace x" "xs \<noteq> []" "isspace (hd xs)"
  shows "\<exists>rest. rmatch ws_run (x # xs, g) = (dropWhile isspace xs, g) # rest"
proof -
  from assms obtain y ys where xs: "xs = y # ys" and y: "isspace y" by (cases xs) auto
  have ne: "plus_greedy (OneOf [WS]) (y # ys) \<noteq> []" using y by simp
  have "hd (plus_greedy (OneOf [WS]) (y # ys)) = dropWhile isspace ys"
    using plus_greedy_hd [of "OneOf [WS]" y ys] y by (simp del: plus_greedy.simps)
  with ne obtain rest where "plus_greedy (OneOf [WS]) (y # ys) = dropWhile isspace ys # rest"
    by (cases "plus_greedy (OneOf [WS]) (y # ys)") auto
  then show ?thesis using assms(1) xs y by (simp add: ws_run_def del: plus_greedy.simps)
qed

lemma re_sub_ws_Nil [simp]: "re_sub ws_run repl [] = []"
  by (subst re_sub.simps) (simp add: ws_run_def)

lemma re_sub_ws_Cons:
  "re_sub ws_run repl (x # xs) =
     (if isspace x \<and> xs \<noteq> [] \<and> isspace (hd xs)
      then repl @ re_sub ws_run repl (dropWhile isspace xs)
      else x # re_sub ws_run repl xs)"
proof (cases "isspace x \<and> xs \<noteq> [] \<and> isspace (hd xs)")
  case True
  then obtain rest where r: "rmatch ws_run (x # xs, None) = (dropWhile isspace xs, None) # rest"
    using rmatch_ws_run_some [of x xs None] by auto
  have "length (dropWhile isspace xs) < length (x # xs)"
    using length_dropWhile_le [of isspace xs] by simp
  then show ?thesis using True r by (subst re_sub.simps) simp
next
  case False
  then have "rmatch ws_run (x # xs, None) = []" by (rule rmatch_ws_run_none)
  then show ?thesis using False by (subst re_sub.simps) auto
qed

lemma adjacent_ws_Cons:
  "adjacent_ws (c # t) = (t \<noteq> [] \<and> isspace c \<and> isspace (hd t) \<or> adjacent_ws t)"
  by (cases t) simp_all

lemma re_sub_ws_hd:
  "re_sub ws_run '' '' s \<noteq> [] \<Longrightarrow> isspace (hd (re_sub ws_run '' '' s)) \<Longrightarrow>
   s \<noteq> [] \<and> isspace (hd s)"
  by (cases s) (auto simp: re_sub_ws_Cons split: if_splits)

lemma re_sub_ws_no_adjacent: "\<not> adjacent_ws (re_sub ws_run '' '' s)"
proof (induction s rule: length_induct)
  case (1 s)
  show ?case
  proof (cases s)
    case Nil
    then show ?thesis by simp
  next
    case (Cons x xs)
    show ?thesis
    proof (cases "isspace x \<and> xs \<noteq> [] \<and> isspace (hd xs)")
      case True
      let ?d = "dropWhile isspace xs"
      have "length ?d < length s" using Cons length_dropWhile_le [of isspace xs] by simp
      then have ih: "\<not> adjacent_ws (re_sub ws_run '' '' ?d)" using 1 by blast
      have "\<not> (re_sub ws_run '' '' ?d \<noteq> [] \<and> isspace (hd (re_sub ws_run '' '' ?d)))"
        using re_sub_ws_hd [of ?d] hd_dropWhile [of isspace xs] by blast
      with ih show ?thesis using Cons True by (auto simp: re_sub_ws_Cons adjacent_ws_Cons)
    next
      case False
      have ih: "\<not> adjacent_ws (re_sub ws_run '' '' xs)" using 1 Cons by simp
      have "\<not> (re_sub ws_run '' '' xs \<noteq> [] \<and> isspace x \<and> isspace (hd (re_sub ws_run '' '' xs)))"
        using re_sub_ws_hd [of xs] False by blast
      with ih show ?thesis using Cons False by (auto simp: re_sub_ws_Cons adjacent_ws_Cons)
    qed
  qed
qed

lemma re_sub_ws_fixed: "\<not> adjacent_ws s \<Longrightarrow> re_sub ws_run '' '' s = s"
proof (induction s)
  case Nil
  then show ?case by simp
next
  case (Cons x xs)
  then show ?case by (auto simp: re_sub_ws_Cons adjacent_ws_Cons)
qed

lemma re_sub_ws_append:
  "u = [] \<or> \<not> isspace (last u) \<Longrightarrow>
   re_sub ws_run '' '' (u @ s) = re_sub ws_run '' '' u @ re_sub ws_run '' '' s"
proof (induction u rule: length_induct)
  case (1 u)
  show ?case
  proof (cases u)
    case Nil
    then show ?thesis by simp
  next
    case (Cons x xs)
    with 1(2) have lastu: "\<not> isspace (last (x # xs))" by simp
    show ?thesis
    proof (cases xs)
      case Nil
      with lastu have "\<not> isspace x" by simp
      then show ?thesis using Cons Nil by (simp add: re_sub_ws_Cons)
    next
      case (Cons y ys)
      then have lastxs: "\<not> isspace (last xs)" using lastu by simp
      have xsne: "xs \<noteq> []" using Cons by simp
      show ?thesis
      proof (cases "isspace x \<and> isspace (hd xs)")
        case True
        let ?d = "dropWhile isspace xs"
        have mem: "last xs \<in> set xs" using xsne by simp
        have dapp: "dropWhile isspace (xs @ s) = ?d @ s"
          using mem lastxs by (simp add: dropWhile_append1)
        have dne: "?d \<noteq> []" using mem lastxs by (auto simp: dropWhile_eq_Nil_conv)
        have "last ?d = last xs"
          using dne by (metis takeWhile_dropWhile_id last_appendR)
        then have c: "?d = [] \<or> \<not> isspace (last ?d)" using lastxs by simp
        have "length ?d < length u" using \<open>u = x # xs\<close> length_dropWhile_le [of isspace xs] by simp
        then have "re_sub ws_run '' '' (?d @ s) = re_sub ws_run '' '' ?d @ re_sub ws_run '' '' s"
          using 1(1) c by blast
        then show ?thesis using \<open>u = x # xs\<close> True xsne dapp by (simp add: re_sub_ws_Cons)
      next
        case False
        have "length xs < length u" using \<open>u = x # xs\<close> by simp
        then have "re_sub ws_run '' '' (xs @ s) = re_sub ws_run '' '' xs @ re_sub ws_run '' '' s"
          using 1(1) lastxs by blast
        then show ?thesis using \<open>u = x # xs\<close> False xsne by (auto simp: re_sub_ws_Cons)
      qed
    qed
  qed
qed

lemma re_sub_ws_run:
  assumes "\<forall>c\<in>set w. isspace c" and "2 \<le> length w" and "v = [] \<or> \<not> isspace (hd v)"
  shows "re_sub ws_run '' '' (w @ v) = '' '' @ re_sub ws_run '' '' v"
proof -
  from assms(2) obtain a b w' where w: "w = a # b # w'"
    by (cases w; cases "tl w") auto
  have "dropWhile isspace (b # w' @ v) = v"
  proof -
    have "dropWhile isspace ((b # w') @ v) = dropWhile isspace v"
      using assms(1) w by (intro dropWhile_append2) auto
    also have "\<dots> = v" using assms(3) by (cases v) auto
    finally show ?thesis by simp
  qed
  then show ?thesis using assms(1) w by (simp add: re_sub_ws_Cons)
qed

lemma filter_dropWhile_neg: "filter (\<lambda>c. \<not> P c) (dropWhile P xs) = filter (\<lambda>c. \<not> P c) xs"
  by (induction xs) auto

lemma re_sub_ws_keeps_text:
  "filter (\<lambda>c. \<not> isspace c) (re_sub ws_run '' '' s) = filter (\<lambda>c. \<not> isspace c) s"
proof (induction s rule: length_induct)
  case (1 s)
  show ?case
  proof (cases s)
    case Nil
    then show ?thesis by simp
  next
    case (Cons x xs)
    have sp: "isspace CHR '' ''" by (simp add: isspace_def whitespace_chars_def)
    have l1: "length (dropWhile isspace xs) < length s"
      using Cons length_dropWhile_le [of isspace xs] by simp
    have l2: "length xs < length s" using Cons by simp
    show ?thesis
      using Cons 1 l1 l2 sp filter_dropWhile_neg [of isspace xs]
      by (auto simp: re_sub_ws_Cons)
  qed
qed

lemma decompose_all_no_tags:
  "set (tag_names (decompose_all names soup)) \<inter> set names = {}"
  by (induction names soup rule: decompose_all.induct) auto

lemma decompose_all_only_those:
  "set (tag_names soup) \<inter> set names = {} \<Longrightarrow> decompose_all names soup = soup"
  by (induction names soup rule: decompose_all.induct) auto

text \<open>
  C8, as amended. For every document that was fetched and parsed, the text returned is
  computed from the soup without its \<open>script\<close> and \<open>style\<close> elements (no element of
  these names is left); it has no two whitespace characters side by side; its characters
  other than whitespace are those of the extracted text, in order; an extracted text
  without two whitespace characters side by side is returned as it is, so a whitespace
  character that stands alone is kept, whatever it is; and a run \<open>w\<close> of two or more
  whitespace characters, standing between \<open>u\<close> and \<open>v\<close> with no whitespace next to it,
  comes out as one space between the results for \<open>u\<close> and \<open>v\<close>.
\<close>

theorem whitespace_runs_collapsed:
  assumes "fetch url = Parsed soup"
      and "clean = decompose_all [''script'', ''style''] soup"
      and "extracted = get_text_strip '' '' clean"
  shows "set (tag_names clean) \<inter> {''script'', ''style''} = {}
       \<and> \<not> adjacent_ws (fetch_website_text fetch url)
       \<and> filter (\<lambda>c. \<not> isspace c) (fetch_website_text fetch url) =
           filter (\<lambda>c. \<not> isspace c) extracted
       \<and> (\<not> adjacent_ws extracted \<longrightarrow> fetch_website_text fetch url = extracted)
       \<and> (extracted = u @ w @ v \<and> (u = [] \<or> \<not> isspace (last u))
            \<and> (\<forall>c\<in>set w. isspace c) \<and> 2 \<le> length w \<and> (v = [] \<or> \<not> isspace (hd v)) \<longrightarrow>
            fetch_website_text fetch url =
              re_sub ws_run '' '' u @ '' '' @ re_sub ws_run '' '' v)"
proof -
  have r: "fetch_website_text fetch url = re_sub ws_run '' '' extracted"
    using assms by (simp add: fetch_website_text_def)
  have t: "set (tag_names clean) \<inter> {''script'', ''style''} = {}"
    using decompose_all_no_tags [of "[''script'', ''style'']" soup] assms(2) by simp
  have e: "extracted = u @ w @ v \<and> (u = [] \<or> \<not> isspace (last u))
            \<and> (\<forall>c\<in>set w. isspace c) \<and> 2 \<le> length w \<and> (v = [] \<or> \<not> isspace (hd v)) \<longrightarrow>
            re_sub ws_run '' '' extracted = re_sub ws_run '' '' u @ '' '' @ re_sub ws_run '' '' v"
    using re_sub_ws_append [of u "w @ v"] re_sub_ws_run [of w v] by auto
  show ?thesis
    unfolding r using t e re_sub_ws_no_adjacent [of extracted] re_sub_ws_keeps_text [of extracted]
      re_sub_ws_fixed [of extracted]
    by blast
qed

theorem whitespace_runs_collapsed_witness:
  "fetch_website_text
     (\<lambda>u. Parsed [Element ''p'' [Text ''  a\<newline>\<newline>  b  ''], Element ''script'' [Text ''x  y''],
                  Text ''c\<newline>d''])
     ''https://example.com/'' = ''a b c\<newline>d''
   \<and> \<not> adjacent_ws ''a b c\<newline>d''"
proof -
  let ?soup = "[Element ''p'' [Text ''  a\<newline>\<newline>  b  ''], Element ''script'' [Text ''x  y''],
                Text ''c\<newline>d'']"
  let ?r = "fetch_website_text (\<lambda>u. Parsed ?soup) ''https://example.com/''"
  have p: "(\<lambda>u. Parsed ?soup) ''https://example.com/'' = Parsed ?soup"
    by simp
  have c: "[Element ''p'' [Text ''  a\<newline>\<newline>  b  ''], Text ''c\<newline>d''] =
             decompose_all [''script'', ''style''] ?soup"
    by simp
  have x: "''a\<newline>\<newline>  b c\<newline>d'' =
             get_text_strip '' '' [Element ''p'' [Text ''  a\<newline>\<newline>  b  ''], Text ''c\<newline>d'']"
    by (simp add: get_text_strip_def strip_def isspace_def whitespace_chars_def)
  have d: "''a\<newline>\<newline>  b c\<newline>d'' = ''a'' @ ''\<newline>\<newline>  '' @ ''b c\<newline>d''
           \<and> (''a'' = [] \<or> \<not> isspace (last ''a''))
           \<and> (\<forall>c\<in>set ''\<newline>\<newline>  ''. isspace c) \<and> 2 \<le> length ''\<newline>\<newline>  ''
           \<and> (''b c\<newline>d'' = [] \<or> \<not> isspace (hd ''b c\<newline>d''))"
    by (simp add: isspace_def whitespace_chars_def)
  have u: "re_sub ws_run '' '' ''a'' = ''a''"
    by (simp add: re_sub_ws_Cons isspace_def whitespace_chars_def)
  have v: "re_sub ws_run '' '' ''b c\<newline>d'' = ''b c\<newline>d''"
    by (simp add: re_sub_ws_Cons isspace_def whitespace_chars_def)
  note t = whitespace_runs_collapsed
             [where fetch = "\<lambda>u. Parsed ?soup" and url = "''https://example.com/''"
                and soup = ?soup and u = "''a''" and w = "''\<newline>\<newline>  ''" and v = "''b c\<newline>d''",
              OF p c x]
  from t d have "?r = re_sub ws_run '' '' ''a'' @ '' '' @ re_sub ws_run '' '' ''b c\<newline>d''"
    by blast
  then have r: "?r = ''a b c\<newline>d''"
    unfolding u v by simp
  from t have "\<not> adjacent_ws ?r" by blast
  with r show ?thesis by simp
qed

text \<open>
  The claim C8 as first stated also says that the only whitespace left is a single space
  between words. A paragraph whose text has a line feed between two letters shows
  otherwise: the line feed stands alone, the pattern does not match it, and it is returned.
\<close>

theorem lone_whitespace_character_survives:
  "fetch_website_text (\<lambda>u. Parsed [Element ''p'' [Text ''a\<newline>b'']]) ''https://example.com/'' =
     ''a\<newline>b''
   \<and> isspace CHR 0x0A \<and> CHR 0x0A \<noteq> CHR '' ''"
  by (simp add: fetch_website_text_def get_text_strip_def strip_def re_sub_ws_Cons isspace_def
      whitespace_chars_def)

subsection \<open>The URL parser\<close>

text \<open>
  The matcher against the language of the pattern: the inputs left over by \<open>rmatch\<close> are
  exactly those after a prefix that the pattern denotes, so \<open>re.search\<close> finds nothing
  exactly when no piece of the input is denoted by the pattern.
\<close>

lemma startswith_iff: "startswith s p \<longleftrightarrow> (\<exists>t. s = p @ t)"
  by (induction s p rule: startswith.induct) auto

lemma startswith_append [simp]: "startswith (p @ t) p"
  by (simp add: startswith_iff)

lemma set_plus_greedy:
  "set (plus_greedy c s) = {t. \<exists>m. m \<noteq> [] \<and> list_all (in_class c) m \<and> s = m @ t}"
proof (induction s)
  case Nil
  then show ?case by simp
next
  case (Cons x xs)
  show ?case
  proof (cases "in_class c x")
    case True
    have "{t. \<exists>m. m \<noteq> [] \<and> list_all (in_class c) m \<and> x # xs = m @ t} =
          insert xs {t. \<exists>m. m \<noteq> [] \<and> list_all (in_class c) m \<and> xs = m @ t}"
      (is "?L = ?R")
    proof
      show "?L \<subseteq> ?R"
      proof
        fix t assume "t \<in> ?L"
        then obtain m where m: "m \<noteq> []" "list_all (in_class c) m" "x # xs = m @ t" by blast
        then obtain m' where m': "m = x # m'" by (cases m) auto
        with m have "xs = m' @ t" "list_all (in_class c) m'" by auto
        then show "t \<in> ?R" by (cases "m' = []") auto
      qed
      show "?R \<subseteq> ?L"
      proof
        fix t assume "t \<in> ?R"
        then consider "t = xs" | m where "m \<noteq> []" "list_all (in_class c) m" "xs = m @ t"
          by blast
        then show "t \<in> ?L"
        proof cases
          case 1
          then have "[x] \<noteq> [] \<and> list_all (in_class c) [x] \<and> x # xs = [x] @ t"
            using True by simp
          then show ?thesis by blast
        next
          case 2
          then have "x # m \<noteq> [] \<and> list_all (in_class c) (x # m) \<and> x # xs = (x # m) @ t"
            using True by simp
          then show ?thesis by blast
        qed
      qed
    qed
    then show ?thesis using True Cons.IH by auto
  next
    case False
    have "{t. \<exists>m. m \<noteq> [] \<and> list_all (in_class c) m \<and> x # xs = m @ t} = {}"
    proof -
      { fix t m assume m: "m \<noteq> []" "list_all (in_class c) m" "x # xs = m @ t"
        then obtain m' where "m = x # m'" by (cases m) auto
        with m False have False by simp }
      then show ?thesis by blast
    qed
    then show ?thesis using False by simp
  qed
qed

lemma set_star_lazy:
  "set (star_lazy c s) = {t. \<exists>m. list_all (in_class c) m \<and> s = m @ t}"
proof (induction s)
  case Nil
  then show ?case by auto
next
  case (Cons x xs)
  have split: "\<And>t. (\<exists>m. list_all (in_class c) m \<and> x # xs = m @ t) \<longleftrightarrow>
                 t = x # xs \<or> (in_class c x \<and> (\<exists>m. list_all (in_class c) m \<and> xs = m @ t))"
  proof
    fix t
    assume "\<exists>m. list_all (in_class c) m \<and> x # xs = m @ t"
    then obtain m where m: "list_all (in_class c) m" "x # xs = m @ t" by blast
    show "t = x # xs \<or> (in_class c x \<and> (\<exists>m. list_all (in_class c) m \<and> xs = m @ t))"
    proof (cases m)
      case Nil
      with m show ?thesis by simp
    next
      case (Cons y ys)
      with m show ?thesis by auto
    qed
  next
    fix t
    assume "t = x # xs \<or> (in_class c x \<and> (\<exists>m. list_all (in_class c) m \<and> xs = m @ t))"
    then show "\<exists>m. list_all (in_class c) m \<and> x # xs = m @ t"
    proof
      assume "t = x # xs"
      then have "list_all (in_class c) [] \<and> x # xs = [] @ t" by simp
      then show ?thesis by blast
    next
      assume "in_class c x \<and> (\<exists>m. list_all (in_class c) m \<and> xs = m @ t)"
      then obtain m where "in_class c x" "list_all (in_class c) m" "xs = m @ t" by blast
      then have "list_all (in_class c) (x # m) \<and> x # xs = (x # m) @ t" by simp
      then show ?thesis by blast
    qed
  qed
  show ?case using Cons.IH by (auto simp: split)
qed

lemma rep_class_Some_iff:
  "rep_class n c s = Some t \<longleftrightarrow> (\<exists>m. length m = n \<and> list_all (in_class c) m \<and> s = m @ t)"
proof (induction n c s rule: rep_class.induct)
  case (1 c s)
  then show ?case by auto
next
  case (2 n c)
  then show ?case by auto
next
  case (3 n c x xs)
  show ?case
  proof (cases "in_class c x")
    case True
    have "(\<exists>m. length m = Suc n \<and> list_all (in_class c) m \<and> x # xs = m @ t) \<longleftrightarrow>
          (\<exists>m. length m = n \<and> list_all (in_class c) m \<and> xs = m @ t)"
    proof
      assume "\<exists>m. length m = Suc n \<and> list_all (in_class c) m \<and> x # xs = m @ t"
      then obtain m where m: "length m = Suc n" "list_all (in_class c) m" "x # xs = m @ t"
        by blast
      then obtain m' where "m = x # m'" by (cases m) auto
      with m have "length m' = n \<and> list_all (in_class c) m' \<and> xs = m' @ t" by simp
      then show "\<exists>m. length m = n \<and> list_all (in_class c) m \<and> xs = m @ t" by blast
    next
      assume "\<exists>m. length m = n \<and> list_all (in_class c) m \<and> xs = m @ t"
      then obtain m where "length m = n" "list_all (in_class c) m" "xs = m @ t" by blast
      then have "length (x # m) = Suc n \<and> list_all (in_class c) (x # m) \<and> x # xs = (x # m) @ t"
        using True by simp
      then show "\<exists>m. length m = Suc n \<and> list_all (in_class c) m \<and> x # xs = m @ t" by blast
    qed
    then show ?thesis using True 3 by simp
  next
    case False
    { fix m assume m: "length m = Suc n" "list_all (in_class c) m" "x # xs = m @ t"
      then obtain m' where "m = x # m'" by (cases m) auto
      with m False have False by simp }
    then show ?thesis using False by auto
  qed
qed

lemma rmatch_lang:
  "(\<exists>g'. (t, g') \<in> set (rmatch r (s, g))) \<longleftrightarrow> (\<exists>m\<in>lang r. s = m @ t)"
proof (induction r arbitrary: s g t)
  case (RLit l)
  show ?case by (auto simp: startswith_iff)
next
  case (RCls c)
  show ?case by (cases s) auto
next
  case (RSeq a b)
  show ?case
  proof
    assume "\<exists>g'. (t, g') \<in> set (rmatch (RSeq a b) (s, g))"
    then obtain g' s1 g1 where a: "(s1, g1) \<in> set (rmatch a (s, g))"
      and b: "(t, g') \<in> set (rmatch b (s1, g1))"
      by auto
    from a obtain u where u: "u \<in> lang a" "s = u @ s1" using RSeq.IH(1) by blast
    from b obtain v where v: "v \<in> lang b" "s1 = v @ t" using RSeq.IH(2) by blast
    from u v have "u @ v \<in> lang (RSeq a b)" "s = (u @ v) @ t" by auto
    then show "\<exists>m\<in>lang (RSeq a b). s = m @ t" by blast
  next
    assume "\<exists>m\<in>lang (RSeq a b). s = m @ t"
    then obtain u v where uv: "u \<in> lang a" "v \<in> lang b" "s = u @ (v @ t)" by auto
    from uv(1,3) obtain g1 where a: "(v @ t, g1) \<in> set (rmatch a (s, g))"
      using RSeq.IH(1) [of "v @ t" s g] by blast
    from uv(2) obtain g' where b: "(t, g') \<in> set (rmatch b (v @ t, g1))"
      using RSeq.IH(2) [of t "v @ t" g1] by blast
    from a b have "(t, g') \<in> set (rmatch (RSeq a b) (s, g))" by auto
    then show "\<exists>g'. (t, g') \<in> set (rmatch (RSeq a b) (s, g))" by blast
  qed
next
  case (RAlt a b)
  have "(\<exists>g'. (t, g') \<in> set (rmatch (RAlt a b) (s, g))) \<longleftrightarrow>
        (\<exists>g'. (t, g') \<in> set (rmatch a (s, g))) \<or> (\<exists>g'. (t, g') \<in> set (rmatch b (s, g)))"
    by auto
  then show ?case unfolding RAlt.IH by auto
next
  case (ROpt a)
  have "(\<exists>g'. (t, g') \<in> set (rmatch (ROpt a) (s, g))) \<longleftrightarrow>
        (\<exists>g'. (t, g') \<in> set (rmatch a (s, g))) \<or> t = s"
    by auto
  then show ?case unfolding ROpt.IH by auto
next
  case (RPlus c)
  have "(\<exists>g'. (t, g') \<in> set (rmatch (RPlus c) (s, g))) \<longleftrightarrow> t \<in> set (plus_greedy c s)"
    by auto
  then show ?case unfolding set_plus_greedy by auto
next
  case (RStarLazy c)
  have "(\<exists>g'. (t, g') \<in> set (rmatch (RStarLazy c) (s, g))) \<longleftrightarrow> t \<in> set (star_lazy c s)"
    by auto
  then show ?case unfolding set_star_lazy by auto
next
  case (RRep n c)
  have "(\<exists>g'. (t, g') \<in> set (rmatch (RRep n c) (s, g))) \<longleftrightarrow> rep_class n c s = Some t"
    by (cases "rep_class n c s") auto
  then show ?case unfolding rep_class_Some_iff by auto
next
  case (RGroup a)
  have "(\<exists>g'. (t, g') \<in> set (rmatch (RGroup a) (s, g))) \<longleftrightarrow>
        (\<exists>g'. (t, g') \<in> set (rmatch a (s, g)))"
    by (auto simp: image_iff) force
  then show ?case unfolding RGroup.IH by simp
qed

lemma rmatch_Nil_iff: "rmatch r (s, g) = [] \<longleftrightarrow> \<not> (\<exists>m\<in>lang r. \<exists>t. s = m @ t)"
proof -
  have "rmatch r (s, g) \<noteq> [] \<longleftrightarrow> (\<exists>t g'. (t, g') \<in> set (rmatch r (s, g)))"
    by (cases "rmatch r (s, g)") auto
  also have "\<dots> \<longleftrightarrow> (\<exists>t. \<exists>m\<in>lang r. s = m @ t)"
    using rmatch_lang [of _ r s g] by blast
  finally show ?thesis by blast
qed

lemma re_search_None_iff:
  "re_search r s = None \<longleftrightarrow> (\<forall>pre rest. s = pre @ rest \<longrightarrow> rmatch r (rest, None) = [])"
proof (induction s)
  case Nil
  then show ?case by (auto split: list.splits)
next
  case (Cons x xs)
  have "(\<forall>pre rest. x # xs = pre @ rest \<longrightarrow> rmatch r (rest, None) = []) \<longleftrightarrow>
        rmatch r (x # xs, None) = [] \<and> (\<forall>pre rest. xs = pre @ rest \<longrightarrow> rmatch r (rest, None) = [])"
    by (auto simp: Cons_eq_append_conv)
  then show ?case using Cons.IH by (auto split: list.splits)
qed

lemma re_search_None_lang:
  "re_search r s = None \<longleftrightarrow> \<not> (\<exists>pre m suf. s = pre @ m @ suf \<and> m \<in> lang r)"
  unfolding re_search_None_iff rmatch_Nil_iff by blast

lemma re_search_Some_in:
  "re_search r s = Some m \<Longrightarrow> \<exists>rest. m \<in> set (rmatch r (rest, None))"
proof (induction s)
  case Nil
  then have "m \<in> set (rmatch r ([], None))" by (auto split: list.splits)
  then show ?case by blast
next
  case (Cons x xs)
  show ?case
  proof (cases "rmatch r (x # xs, None)")
    case Nil
    with Cons show ?thesis by simp
  next
    case (Cons y ys)
    with Cons.prems have "m \<in> set (rmatch r (x # xs, None))" by simp
    then show ?thesis by blast
  qed
qed

lemma group_sets_capture:
  "m \<in> set (rmatch (RSeq a (RGroup b)) st) \<Longrightarrow> snd m \<noteq> None"
  by auto

lemma video_id_None_iff: "get_youtube_video_id url = None \<longleftrightarrow> \<not> has_id_pattern url"
proof -
  have "get_youtube_video_id url = None \<longleftrightarrow> re_search youtube_regex url = None"
  proof
    assume n: "get_youtube_video_id url = None"
    show "re_search youtube_regex url = None"
    proof (rule ccontr)
      assume "re_search youtube_regex url \<noteq> None"
      then obtain m where m: "re_search youtube_regex url = Some m" by auto
      then obtain rest where "m \<in> set (rmatch youtube_regex (rest, None))"
        using re_search_Some_in by blast
      then have "snd m \<noteq> None"
        unfolding youtube_regex_def by (rule group_sets_capture)
      with n m show False by (cases m) (simp add: get_youtube_video_id_def)
    qed
  next
    assume "re_search youtube_regex url = None"
    then show "get_youtube_video_id url = None" by (simp add: get_youtube_video_id_def)
  qed
  then show ?thesis by (simp add: re_search_None_lang has_id_pattern_def)
qed

text \<open>
  Where the parser is right. Let the URL be one of \<open>youtube.com/watch?v=\<close>, \<open>youtu.be/\<close>,
  \<open>youtube.com/embed/\<close>, \<open>youtube.com/v/\<close> followed by an identifier of exactly 11
  characters of \<open>[a-zA-Z0-9_-]\<close>, after a prefix without the letter \<open>y\<close> (such as
  \<open>https://www.\<close>) and before a rest without a slash (such as \<open>&t=42s\<close>). After
  \<open>youtube.com/\<close> the first alternative of the pattern needs two more slashes, so it
  fails on a rest with fewer; the identifier is then reached through the \<open>v/\<close> or
  \<open>embed/\<close> alternative or, lazily, through the first \<open>?v=\<close>, and the parser returns
  exactly the identifier (lemma \<open>video_id_on_shape\<close>).
\<close>

lemma id_char_not_slash: "in_class id_class c \<Longrightarrow> c \<noteq> CHR ''/''"
  by (auto simp: id_class_def)

lemma rmatch_Seq_Lit: "rmatch (RSeq (RLit l) b) (l @ rest, g) = rmatch b (rest, g)"
  by simp

lemma no_slash_no_segment:
  assumes "CHR ''/'' \<notin> set s"
  shows "rmatch (RSeq (RPlus c) (RLit ''/'')) (s, g) = []"
proof -
  { fix m t assume m: "m \<in> lang (RSeq (RPlus c) (RLit ''/''))" and s: "s = m @ t"
    from m obtain u where "m = u @ ''/''" by auto
    with s assms have False by simp }
  then show ?thesis unfolding rmatch_Nil_iff by blast
qed

lemma rep_class_exact:
  "length vid = n \<Longrightarrow> list_all (in_class c) vid \<Longrightarrow> rep_class n c (vid @ suf) = Some suf"
  unfolding rep_class_Some_iff by blast

lemma group_captures_id:
  assumes "length vid = 11" and "list_all (in_class id_class) vid"
  shows "rmatch (RGroup (RRep 11 id_class)) (vid @ suf, g) = [(suf, Some vid)]"
  using rep_class_exact [OF assms, of suf] by simp

lemma regex_after_prefix:
  assumes "rmatch youtube_prefix (s, None) = (vid @ suf, None) # rest"
      and "length vid = 11" and "list_all (in_class id_class) vid"
  shows "\<exists>rest'. rmatch youtube_regex (s, None) = (suf, Some vid) # rest'"
  using assms(1) group_captures_id [OF assms(2,3), of suf None]
  by (simp add: youtube_regex_def del: rmatch.simps(9))

lemma re_search_head: "rmatch r (s, None) = m # rest \<Longrightarrow> re_search r s = Some m"
  by (cases s) simp_all

lemma no_match_off_y: "CHR ''y'' \<noteq> x \<Longrightarrow> rmatch youtube_regex (x # t, None) = []"
  by (simp add: youtube_regex_def youtube_prefix_def)

lemma re_search_skip:
  "CHR ''y'' \<notin> set pre \<Longrightarrow> re_search youtube_regex (pre @ s) = re_search youtube_regex s"
  by (induction pre) (simp_all add: no_match_off_y)


lemma two_slashes_for_path:
  assumes "length (filter (\<lambda>c. c = CHR ''/'') s) < 2"
  shows "rmatch (RSeq (RPlus c) (RSeq (RLit ''/'') (RSeq (RPlus c') (RLit ''/'')))) (s, g) = []"
proof -
  { fix m t
    assume m: "m \<in> lang (RSeq (RPlus c) (RSeq (RLit ''/'') (RSeq (RPlus c') (RLit ''/''))))"
       and s: "s = m @ t"
    from m obtain u v where "m = u @ ''/'' @ v @ ''/''" by auto
    with s have "2 \<le> length (filter (\<lambda>c. c = CHR ''/'') s)" by simp
    with assms have False by simp }
  then show ?thesis unfolding rmatch_Nil_iff by blast
qed

lemma no_slash_filter: "CHR ''/'' \<notin> set s \<Longrightarrow> filter (\<lambda>c. c = CHR ''/'') s = []"
  by (induction s) auto

lemma prefix_watch:
  assumes "CHR ''/'' \<notin> set (vid @ suf)"
  shows "\<exists>rest. rmatch youtube_prefix (''youtube.com/watch?v='' @ vid @ suf, g) =
                 (vid @ suf, g) # rest"
proof -
  let ?x = "''watch?v='' @ vid @ suf"
  have sl: "length (filter (\<lambda>c. c = CHR ''/'') ?x) < 2"
    using no_slash_filter [OF assms] by simp
  have a1: "rmatch (RSeq (RPlus (NoneOf [Ch CHR ''/'', Ch CHR 0x0A, WS]))
                      (RSeq (RLit ''/'') (RSeq (RPlus (NoneOf [WS])) (RLit ''/'')))) (?x, g) = []"
    using sl by (rule two_slashes_for_path)
  have a2: "rmatch (RSeq (RAlt (RLit ''v'') (RSeq (RLit ''e'') (ROpt (RLit ''mbed''))))
                      (RLit ''/'')) (?x, g) = []"
    by simp
  have a3: "\<exists>rest. rmatch (RSeq (RStarLazy (NoneOf [WS]))
                        (RSeq (RCls (OneOf [Ch CHR ''?'', Ch CHR ''&''])) (RLit ''v=''))) (?x, g) =
                   (vid @ suf, g) # rest"
    by (simp add: isspace_def whitespace_chars_def)
  have "rmatch youtube_prefix (''youtube.com/'' @ ?x, g) =
          (rmatch (RSeq (RPlus (NoneOf [Ch CHR ''/'', Ch CHR 0x0A, WS]))
                      (RSeq (RLit ''/'') (RSeq (RPlus (NoneOf [WS])) (RLit ''/'')))) (?x, g)
           @ rmatch (RSeq (RAlt (RLit ''v'') (RSeq (RLit ''e'') (ROpt (RLit ''mbed''))))
                      (RLit ''/'')) (?x, g)
           @ rmatch (RSeq (RStarLazy (NoneOf [WS]))
                        (RSeq (RCls (OneOf [Ch CHR ''?'', Ch CHR ''&''])) (RLit ''v=''))) (?x, g))
          @ rmatch (RLit ''youtu.be/'') (''youtube.com/'' @ ?x, g)"
    unfolding youtube_prefix_def by (simp only: rmatch.simps(4) rmatch_Seq_Lit)
  with a1 a2 a3 have "\<exists>rest. rmatch youtube_prefix (''youtube.com/'' @ ?x, g) = (vid @ suf, g) # rest"
    by (simp only: append_Nil) auto
  then show ?thesis by simp
qed

lemma prefix_path:
  assumes "CHR ''/'' \<notin> set (vid @ suf)" and "seg = ''embed/'' \<or> seg = ''v/''"
  shows "\<exists>rest. rmatch youtube_prefix ((''youtube.com/'' @ seg) @ vid @ suf, g) =
                 (vid @ suf, g) # rest"
proof -
  let ?x = "seg @ vid @ suf"
  have sl: "length (filter (\<lambda>c. c = CHR ''/'') ?x) < 2"
    using no_slash_filter [OF assms(1)] assms(2) by auto
  have a1: "rmatch (RSeq (RPlus (NoneOf [Ch CHR ''/'', Ch CHR 0x0A, WS]))
                      (RSeq (RLit ''/'') (RSeq (RPlus (NoneOf [WS])) (RLit ''/'')))) (?x, g) = []"
    using sl by (rule two_slashes_for_path)
  have a2: "rmatch (RSeq (RAlt (RLit ''v'') (RSeq (RLit ''e'') (ROpt (RLit ''mbed''))))
                      (RLit ''/'')) (?x, g) = [(vid @ suf, g)]"
    using assms(2) by auto
  have "rmatch youtube_prefix (''youtube.com/'' @ ?x, g) =
          (rmatch (RSeq (RPlus (NoneOf [Ch CHR ''/'', Ch CHR 0x0A, WS]))
                      (RSeq (RLit ''/'') (RSeq (RPlus (NoneOf [WS])) (RLit ''/'')))) (?x, g)
           @ rmatch (RSeq (RAlt (RLit ''v'') (RSeq (RLit ''e'') (ROpt (RLit ''mbed''))))
                      (RLit ''/'')) (?x, g)
           @ rmatch (RSeq (RStarLazy (NoneOf [WS]))
                        (RSeq (RCls (OneOf [Ch CHR ''?'', Ch CHR ''&''])) (RLit ''v=''))) (?x, g))
          @ rmatch (RLit ''youtu.be/'') (''youtube.com/'' @ ?x, g)"
    unfolding youtube_prefix_def by (simp only: rmatch.simps(4) rmatch_Seq_Lit)
  with a1 a2 have "\<exists>rest. rmatch youtube_prefix (''youtube.com/'' @ ?x, g) = (vid @ suf, g) # rest"
    by (simp only: append_Nil) auto
  then show ?thesis by simp
qed

lemma prefix_short:
  "\<exists>rest. rmatch youtube_prefix (''youtu.be/'' @ vid @ suf, g) = (vid @ suf, g) # rest"
  by (simp add: youtube_prefix_def)

lemma regex_on_shape:
  assumes "length vid = 11" and "\<forall>c\<in>set vid. in_class id_class c"
      and "CHR ''/'' \<notin> set suf"
      and "shape \<in> {''youtube.com/watch?v='', ''youtu.be/'', ''youtube.com/embed/'',
                     ''youtube.com/v/''}"
  shows "\<exists>rest. rmatch youtube_regex (shape @ vid @ suf, None) = (suf, Some vid) # rest"
proof -
  have la: "list_all (in_class id_class) vid" using assms(2) by (simp add: list_all_iff)
  have sl: "CHR ''/'' \<notin> set (vid @ suf)"
    using assms(2,3) id_char_not_slash by auto
  have "\<exists>rest. rmatch youtube_prefix (shape @ vid @ suf, None) = (vid @ suf, None) # rest"
    using assms(4) prefix_watch [OF sl, of None] prefix_short [of vid suf None]
      prefix_path [OF sl, of "''embed/''" None] prefix_path [OF sl, of "''v/''" None]
    by auto
  then obtain rest where "rmatch youtube_prefix (shape @ vid @ suf, None) = (vid @ suf, None) # rest"
    by blast
  then show ?thesis using assms(1) la by (rule regex_after_prefix)
qed

lemma video_id_on_shape:
  assumes "length vid = 11" and "\<forall>c\<in>set vid. in_class id_class c"
      and "CHR ''y'' \<notin> set pre" and "CHR ''/'' \<notin> set suf"
      and "shape \<in> {''youtube.com/watch?v='', ''youtu.be/'', ''youtube.com/embed/'',
                     ''youtube.com/v/''}"
  shows "get_youtube_video_id (pre @ shape @ vid @ suf) = Some vid"
proof -
  obtain rest where "rmatch youtube_regex (shape @ vid @ suf, None) = (suf, Some vid) # rest"
    using regex_on_shape [OF assms(1,2,4,5)] by blast
  then have "re_search youtube_regex (shape @ vid @ suf) = Some (suf, Some vid)"
    by (rule re_search_head)
  then have "re_search youtube_regex (pre @ shape @ vid @ suf) = Some (suf, Some vid)"
    using re_search_skip [OF assms(3)] by simp
  then show ?thesis by (simp add: get_youtube_video_id_def)
qed

text \<open>
  C5. The claim is that for every URL of one of the four shapes the parser returns exactly
  the identifier. The first alternative of the pattern, \<^verbatim>\<open>[^\/\n\s]+\/\S+\/\<close>, is tried
  before the others and runs greedily over any later slashes. So for the embed URL of the
  video \<open>dQw4w9WgXcQ\<close> with the parameter \<open>origin=https://stackoverflow.com\<close> the parser
  returns \<open>stackoverfl\<close>, the 11 characters after the last slash, and not the identifier;
  for the same URL without its parameters it returns the identifier.
\<close>

theorem embed_url_with_later_slashes_gives_other_text:
  "get_youtube_video_id
     ''https://www.youtube.com/embed/dQw4w9WgXcQ?enablejsapi=1&origin=https://stackoverflow.com'' =
     Some ''stackoverfl''
   \<and> get_youtube_video_id ''https://www.youtube.com/embed/dQw4w9WgXcQ'' = Some ''dQw4w9WgXcQ''"
  by code_simp

end
